theory Spec2Isabelle
  imports Complex_Main
begin

section \<open>The data of the listing wizard (ListProperty.tsx)\<close>

text \<open>
  A JavaScript \<open>number\<close>, as far as the wizard handles one: a finite value, one of the
  two infinities, or \<open>NaN\<close>. Finite values are kept as rationals; the only place
  where the rounding of a double matters is \<open>parseInt\<close>, modelled below.
\<close>

datatype number = Num rat | PosInfinity | NegInfinity | NaN

text \<open>
  One entry of \<open>PropertyFormData.rooms\<close>. The optional \<open>id\<close> (\<open>existing_id\<close>) is
  only present on rooms that were loaded from the database; \<open>price_lkr\<close> is
  \<open>number | null\<close>. The photo array of a room is called \<open>room_photo_urls\<close> here, since
  the form has a \<open>photos\<close> array of its own.
\<close>

record room =
  existing_id :: "nat option"
  room_type :: string
  bed_type :: string
  max_guests :: int
  units_available :: int
  facilities :: "string list"
  price_lkr :: "number option"
  room_photo_urls :: "string list"

text \<open>
  The ten columns that the form shares with a row of \<open>properties\<close>; the form
  (\<open>PropertyFormData\<close>) adds the rooms and the photo URLs.
\<close>

record property_fields =
  property_type :: string
  name :: string
  description :: string
  street_address :: string
  city :: string
  state :: string
  amenities :: "(string \<times> string list) list"
  checkin_time :: string
  checkout_time :: string
  cancellation_policy :: string

record PropertyFormData = property_fields +
  rooms :: "room list"
  photos :: "string list"

definition initialFormData :: PropertyFormData where
  "initialFormData =
     \<lparr>property_type = '''', name = '''', description = '''', street_address = '''',
      city = '''', state = '''', amenities = [], checkin_time = '''', checkout_time = '''',
      cancellation_policy = '''', rooms = [], photos = []\<rparr>"

text \<open>A toast shown to the user; \<open>variant: "destructive"\<close> marks an error.\<close>

record toast =
  title :: string
  toast_description :: string
  destructive :: bool

subsection \<open>The tables of the hosted database\<close>

text \<open>
  A row of \<open>properties\<close>. Generated identifiers (UUIDs in the schema) are natural
  numbers drawn from a counter; the nullable columns are options.
\<close>

record property_row =
  pr_id :: nat
  pr_user_id :: string
  pr_property_type :: string
  pr_name :: string
  pr_description :: "string option"
  pr_street_address :: string
  pr_city :: string
  pr_state :: string
  pr_amenities :: "(string \<times> string list) list option"
  pr_checkin_time :: "string option"
  pr_checkout_time :: "string option"
  pr_cancellation_policy :: "string option"
  pr_status :: "string option"
  pr_created_at :: string
  pr_updated_at :: string

text \<open>The object \<open>handleSubmit\<close> inserts into \<open>properties\<close>, and the one it updates with.\<close>

record property_insert = property_fields +
  user_id :: string
  status :: string

record property_update = property_fields +
  updated_at :: string

text \<open>The objects inserted into \<open>property_rooms\<close>, \<open>room_photos\<close> and \<open>property_photos\<close>.\<close>

record room_insert =
  ri_property_id :: nat
  ri_room_type :: string
  ri_bed_type :: string
  ri_max_guests :: int
  ri_units_available :: int
  ri_facilities :: "string list"
  ri_price_lkr :: "number option"

record room_photo_insert =
  rp_room_id :: nat
  rp_photo_url :: string
  rp_sort_order :: nat

record property_photo_insert =
  pp_property_id :: nat
  pp_photo_url :: string
  pp_sort_order :: nat

text \<open>A stored row of these tables: the generated identifier and the inserted columns.\<close>

record room_row =
  rr_id :: nat
  rr_columns :: room_insert

record room_photo_row =
  rpr_id :: nat
  rpr_columns :: room_photo_insert

record property_photo_row =
  ppr_id :: nat
  ppr_columns :: property_photo_insert

record db =
  properties :: "property_row list"
  property_rooms :: "room_row list"
  room_photos :: "room_photo_row list"
  property_photos :: "property_photo_row list"
  next_id :: nat

text \<open>The calls \<open>ListProperty.tsx\<close> makes on the Supabase client.\<close>

datatype call =
    SelectProperty nat
  | SelectRooms nat
  | InsertProperty property_insert
  | UpdateProperty nat property_update
  | DeleteRooms nat
  | InsertRooms "room_insert list"
  | InsertRoomPhotos "room_photo_insert list"
  | DeletePropertyPhotos nat
  | InsertPropertyPhotos "property_photo_insert list"

text \<open>
  The state of the whole system: the database, the calls made on it so far (each with
  whether it succeeded), the browser console, and the React state of the page with the
  toasts it has shown and the routes it has navigated to.
\<close>

record app = db +
  call_log :: "(call \<times> bool) list"
  console :: "string list"
  formData :: PropertyFormData
  currentStep :: nat
  isSubmitting :: bool
  isUploading :: bool
  uploadingRoomIndex :: "int option"
  loading :: bool
  toasts :: "toast list"
  navigated :: "string list"

definition MAX_PHOTOS :: nat where
  "MAX_PHOTOS = 20"

definition MAX_ROOM_PHOTOS :: nat where
  "MAX_ROOM_PHOTOS = 15"

definition totalSteps :: nat where
  "totalSteps = 6"

subsection \<open>Array helpers with JavaScript's behaviour out of range\<close>

text \<open>\<open>xs[i]\<close> is \<open>undefined\<close> for every index that is not a position of the array.\<close>

definition at_index :: "'a list \<Rightarrow> int \<Rightarrow> 'a option" where
  "at_index xs i = (if 0 \<le> i \<and> i < int (length xs) then Some (xs ! nat i) else None)"

text \<open>\<open>xs.map((x, i) => i === index ? f(x) : x)\<close>\<close>

definition map_at :: "int \<Rightarrow> ('a \<Rightarrow> 'a) \<Rightarrow> 'a list \<Rightarrow> 'a list" where
  "map_at index f xs = map (\<lambda>(i, x). if int i = index then f x else x) (enumerate 0 xs)"

text \<open>\<open>xs.filter((_, i) => i !== index)\<close>\<close>

definition filter_not_at :: "int \<Rightarrow> 'a list \<Rightarrow> 'a list" where
  "filter_not_at index xs = map snd (filter (\<lambda>(i, x). int i \<noteq> index) (enumerate 0 xs))"

subsection \<open>Room operations\<close>

definition newRoom :: room where
  "newRoom = \<lparr>existing_id = None, room_type = '''', bed_type = '''', max_guests = 1,
     units_available = 1, facilities = [], price_lkr = None, room_photo_urls = []\<rparr>"

definition addRoom :: "app \<Rightarrow> app" where
  "addRoom s = s\<lparr>formData := (formData s)\<lparr>rooms := rooms (formData s) @ [newRoom]\<rparr>\<rparr>"

text \<open>
  \<open>updateRoom(index, field, value)\<close> writes one key of one room. The keys the
  component passes are the fields of a room, each with a value of its type.
\<close>

datatype room_field =
    Field_room_type string
  | Field_bed_type string
  | Field_max_guests int
  | Field_units_available int
  | Field_facilities "string list"
  | Field_price_lkr "number option"
  | Field_photos "string list"

fun set_room_field :: "room_field \<Rightarrow> room \<Rightarrow> room" where
  "set_room_field (Field_room_type v) r = r\<lparr>room_type := v\<rparr>"
| "set_room_field (Field_bed_type v) r = r\<lparr>bed_type := v\<rparr>"
| "set_room_field (Field_max_guests v) r = r\<lparr>max_guests := v\<rparr>"
| "set_room_field (Field_units_available v) r = r\<lparr>units_available := v\<rparr>"
| "set_room_field (Field_facilities v) r = r\<lparr>facilities := v\<rparr>"
| "set_room_field (Field_price_lkr v) r = r\<lparr>price_lkr := v\<rparr>"
| "set_room_field (Field_photos v) r = r\<lparr>room_photo_urls := v\<rparr>"

definition updateRoom :: "int \<Rightarrow> room_field \<Rightarrow> app \<Rightarrow> app" where
  "updateRoom index fv s =
     s\<lparr>formData := (formData s)\<lparr>rooms := map_at index (set_room_field fv) (rooms (formData s))\<rparr>\<rparr>"

definition removeRoom :: "int \<Rightarrow> app \<Rightarrow> app" where
  "removeRoom index s =
     s\<lparr>formData := (formData s)\<lparr>rooms := filter_not_at index (rooms (formData s))\<rparr>\<rparr>"

definition removeRoomPhoto :: "int \<Rightarrow> int \<Rightarrow> app \<Rightarrow> app" where
  "removeRoomPhoto roomIndex photoIndex s =
     (case at_index (rooms (formData s)) roomIndex of
        None \<Rightarrow> s
      | Some room \<Rightarrow>
          updateRoom roomIndex
            (Field_photos (filter_not_at photoIndex (room_photo_urls room))) s)"

text \<open>The remove button of a property photo (inline handler of step 2).\<close>

definition removePhoto :: "int \<Rightarrow> app \<Rightarrow> app" where
  "removePhoto idx s =
     s\<lparr>formData := (formData s)\<lparr>photos := filter_not_at idx (photos (formData s))\<rparr>\<rparr>"

subsection \<open>Step navigation\<close>

definition nextStep :: "app \<Rightarrow> app" where
  "nextStep s = (if currentStep s < totalSteps then s\<lparr>currentStep := currentStep s + 1\<rparr> else s)"

definition prevStep :: "app \<Rightarrow> app" where
  "prevStep s = (if currentStep s > 1 then s\<lparr>currentStep := currentStep s - 1\<rparr> else s)"

text \<open>The \<open>disabled\<close> attribute of the Next button; an empty string is falsy.\<close>

definition next_disabled :: "app \<Rightarrow> bool" where
  "next_disabled s =
     ((currentStep s = 1 \<and> property_type (formData s) = '''') \<or>
      (currentStep s = 2 \<and>
        (name (formData s) = '''' \<or> street_address (formData s) = '''' \<or>
         city (formData s) = '''' \<or> state (formData s) = '''')))"

text \<open>
  A click on Next: the button is rendered only before the last step, a disabled button
  ignores the click, and otherwise \<open>nextStep\<close> runs.
\<close>

definition click_next :: "app \<Rightarrow> app" where
  "click_next s =
     (if currentStep s < totalSteps \<and> \<not> next_disabled s then nextStep s else s)"

section \<open>Numbers and strings\<close>

subsection \<open>Decimal digits\<close>

definition digits :: string where
  "digits = ''0123456789''"

definition digit_char :: "nat \<Rightarrow> char" where
  "digit_char d = digits ! d"

definition is_digit :: "char \<Rightarrow> bool" where
  "is_digit c = (c \<in> set digits)"



text \<open>\<open>String(n)\<close> of a non-negative integer: its decimal digits, no leading zero.\<close>

function string_of_nat :: "nat \<Rightarrow> string" where
  "string_of_nat n =
     (if n < 10 then [digit_char n] else string_of_nat (n div 10) @ [digit_char (n mod 10)])"
  by pat_completeness auto
termination
  by (relation "measure id") auto

declare string_of_nat.simps [simp del]


subsection \<open>The Number value of a non-negative integer\<close>




definition isNaN :: "number \<Rightarrow> bool" where
  "isNaN x = (x = NaN)"

subsection \<open>The price input\<close>




section \<open>The media upload adapter (lib/cloudinary)\<close>

type_synonym File = string

record CloudinaryUploadResult =
  url :: string
  public_id :: string

text \<open>The JSON body of a successful upload, as far as the adapter reads it.\<close>

record upload_json =
  json_secure_url :: string
  json_url :: string
  json_public_id :: string

text \<open>
  What \<open>fetch\<close> does with one file: it rejects (network error), or it resolves with a
  response: its \<open>ok\<close> flag, its status, its text (reading it may fail) and its JSON
  body (parsing it may fail with a message).
\<close>

datatype fetch_result =
    Fetch_rejected string
  | Fetch_response bool nat "string option" "string + upload_json"

record upload_env =
  cloudName :: "string option"
  uploadPreset :: "string option"
  fetch :: "File \<Rightarrow> fetch_result"

definition falsy :: "string option \<Rightarrow> bool" where
  "falsy s = (s = None \<or> s = Some '''')"

definition uploadImageToCloudinary :: "upload_env \<Rightarrow> File \<Rightarrow> string + CloudinaryUploadResult" where
  "uploadImageToCloudinary env f =
     (if falsy (cloudName env) \<or> falsy (uploadPreset env) then
        Inl ''Cloudinary is not configured. Please set VITE_CLOUDINARY_CLOUD_NAME and VITE_CLOUDINARY_UPLOAD_PRESET in your .env''
      else
        (case fetch env f of
           Fetch_rejected msg \<Rightarrow> Inl msg
         | Fetch_response ok response_status text json \<Rightarrow>
             if \<not> ok then
               Inl (''Cloudinary upload failed ('' @ string_of_nat response_status @ ''): '' @
                    (case text of None \<Rightarrow> '''' | Some errorText \<Rightarrow> errorText))
             else
               (case json of
                  Inl msg \<Rightarrow> Inl msg
                | Inr data \<Rightarrow>
                    Inr \<lparr>url = (if json_secure_url data \<noteq> '''' then json_secure_url data
                                else json_url data),
                         public_id = json_public_id data\<rparr>)))"

text \<open>
  \<open>Promise.all\<close> over the uploads of one batch: it resolves with the results in the
  order of the files when every upload resolves, and rejects with the error of the upload
  that rejects first. Which one that is depends on the order in which the uploads settle,
  given as a list of positions (positions missing from it settle last, in file order).
\<close>

definition promise_all :: "nat list \<Rightarrow> (string + 'a) list \<Rightarrow> string + 'a list" where
  "promise_all settle_order rs =
     (case List.find (\<lambda>i. i < length rs \<and> isl (rs ! i)) (settle_order @ [0..<length rs]) of
        Some i \<Rightarrow> Inl (projl (rs ! i))
      | None \<Rightarrow> Inr (map projr rs))"

text \<open>\<open>err.message || fallback\<close>\<close>

definition message_or :: "string \<Rightarrow> string \<Rightarrow> string" where
  "message_or msg fallback = (if msg = '''' then fallback else msg)"

section \<open>Adding photos\<close>

definition handleRoomPhotoUpload ::
  "upload_env \<Rightarrow> nat list \<Rightarrow> int \<Rightarrow> File list \<Rightarrow> app \<Rightarrow> app" where
  "handleRoomPhotoUpload env settle_order roomIndex files s =
     (case at_index (rooms (formData s)) roomIndex of
        None \<Rightarrow> s
      | Some room \<Rightarrow>
          let currentPhotos = length (room_photo_urls room);
              newPhotosCount = length files
          in
          if currentPhotos + newPhotosCount > MAX_ROOM_PHOTOS then
            s\<lparr>toasts := toasts s @
               [\<lparr>title = ''Upload limit exceeded'',
                 toast_description = ''You can only upload '' @ string_of_nat MAX_ROOM_PHOTOS @
                   '' photos per room. Currently have '' @ string_of_nat currentPhotos @ '' photos.'',
                 destructive = False\<rparr>]\<rparr>
          else
            (case promise_all settle_order (map (uploadImageToCloudinary env) files) of
               Inr results \<Rightarrow>
                 (updateRoom roomIndex
                    (Field_photos (room_photo_urls room @ map url results)) s)
                 \<lparr>toasts := toasts s @
                    [\<lparr>title = ''Uploaded'',
                      toast_description = string_of_nat (length results) @ '' photo(s) uploaded to room.'',
                      destructive = False\<rparr>],
                  uploadingRoomIndex := None\<rparr>
             | Inl err \<Rightarrow>
                 s\<lparr>console := console s @ [''Room photo upload error''],
                   toasts := toasts s @
                    [\<lparr>title = ''Upload failed'',
                      toast_description = message_or err ''Unable to upload room photos'',
                      destructive = True\<rparr>],
                   uploadingRoomIndex := None\<rparr>))"

text \<open>
  The \<open>onChange\<close> handler of the property photo input (step 2). \<open>remaining\<close> is
  computed in integers: a loaded property may already hold more than the maximum.
\<close>

definition handlePhotoUpload :: "upload_env \<Rightarrow> nat list \<Rightarrow> File list \<Rightarrow> app \<Rightarrow> app" where
  "handlePhotoUpload env settle_order allFiles s =
     (if length allFiles = 0 then s
      else
        let remaining = int MAX_PHOTOS - int (length (photos (formData s))) in
        if remaining \<le> 0 then
          s\<lparr>toasts := toasts s @
             [\<lparr>title = ''Limit reached'',
               toast_description = ''You can upload up to '' @ string_of_nat MAX_PHOTOS @ '' photos.'',
               destructive = True\<rparr>]\<rparr>
        else
          let files = take (nat remaining) allFiles;
              s1 = (if int (length allFiles) > remaining then
                      s\<lparr>toasts := toasts s @
                         [\<lparr>title = ''Too many files'',
                           toast_description = ''Only '' @ string_of_nat (nat remaining) @
                             '' more photo(s) can be uploaded (max '' @ string_of_nat MAX_PHOTOS @ '').'',
                           destructive = False\<rparr>]\<rparr>
                    else s)
          in
          (case promise_all settle_order (map (uploadImageToCloudinary env) files) of
             Inr results \<Rightarrow>
               s1\<lparr>formData := (formData s1)\<lparr>photos := photos (formData s1) @ map url results\<rparr>,
                  toasts := toasts s1 @
                    [\<lparr>title = ''Uploaded'',
                      toast_description = string_of_nat (length results) @ '' photo(s) uploaded.'',
                      destructive = False\<rparr>],
                  isUploading := False\<rparr>
           | Inl err \<Rightarrow>
               s1\<lparr>console := console s1 @ [''Upload error''],
                  toasts := toasts s1 @
                    [\<lparr>title = ''Upload failed'',
                      toast_description = message_or err ''Unable to upload'',
                      destructive = True\<rparr>],
                  isUploading := False\<rparr>))"

section \<open>The persistence adapter\<close>

text \<open>
  What the outside world decides during one run: which calls on the database fail (by
  their position in the call log, with the message of the error) and the current time.
  The constraints and policies of the schema are not evaluated; a call they reject is a
  call that fails.
\<close>

record env =
  faults :: "nat \<Rightarrow> string option"
  now :: string

definition new_property_row :: "string \<Rightarrow> nat \<Rightarrow> property_insert \<Rightarrow> property_row" where
  "new_property_row t i p =
     \<lparr>pr_id = i, pr_user_id = user_id p, pr_property_type = property_type p,
      pr_name = name p, pr_description = Some (description p),
      pr_street_address = street_address p, pr_city = city p, pr_state = state p,
      pr_amenities = Some (amenities p), pr_checkin_time = Some (checkin_time p),
      pr_checkout_time = Some (checkout_time p),
      pr_cancellation_policy = Some (cancellation_policy p), pr_status = Some (status p),
      pr_created_at = t, pr_updated_at = t\<rparr>"

text \<open>
  An update writes the columns of its payload; \<open>updated_at\<close> is then set to the
  current time by the trigger \<open>update_properties_updated_at\<close> of the schema.
\<close>

definition updated_property_row :: "string \<Rightarrow> property_update \<Rightarrow> property_row \<Rightarrow> property_row" where
  "updated_property_row t p r =
     r\<lparr>pr_property_type := property_type p, pr_name := name p,
       pr_description := Some (description p), pr_street_address := street_address p,
       pr_city := city p, pr_state := state p, pr_amenities := Some (amenities p),
       pr_checkin_time := Some (checkin_time p), pr_checkout_time := Some (checkout_time p),
       pr_cancellation_policy := Some (cancellation_policy p), pr_updated_at := t\<rparr>"

definition new_room_rows :: "nat \<Rightarrow> room_insert list \<Rightarrow> room_row list" where
  "new_room_rows i cols = map (\<lambda>(k, c). \<lparr>rr_id = k, rr_columns = c\<rparr>) (enumerate i cols)"

definition new_room_photo_rows :: "nat \<Rightarrow> room_photo_insert list \<Rightarrow> room_photo_row list" where
  "new_room_photo_rows i cols = map (\<lambda>(k, c). \<lparr>rpr_id = k, rpr_columns = c\<rparr>) (enumerate i cols)"

definition new_property_photo_rows ::
  "nat \<Rightarrow> property_photo_insert list \<Rightarrow> property_photo_row list" where
  "new_property_photo_rows i cols = map (\<lambda>(k, c). \<lparr>ppr_id = k, ppr_columns = c\<rparr>) (enumerate i cols)"

definition rooms_of :: "nat \<Rightarrow> room_row list \<Rightarrow> room_row list" where
  "rooms_of pid rs = filter (\<lambda>r. ri_property_id (rr_columns r) = pid) rs"

definition photos_of_room :: "nat \<Rightarrow> room_photo_row list \<Rightarrow> room_photo_row list" where
  "photos_of_room rid ps = filter (\<lambda>p. rp_room_id (rpr_columns p) = rid) ps"

definition photos_of_property :: "nat \<Rightarrow> property_photo_row list \<Rightarrow> property_photo_row list" where
  "photos_of_property pid ps = filter (\<lambda>p. pp_property_id (ppr_columns p) = pid) ps"

text \<open>
  Modelled from the spec: the table \<open>room_photos\<close> is declared in a migration that
  is not among the sources. By the spec its owning room is a cascade-delete parent, as
  the property is for the rooms and photos declared in the schema: deleting rooms deletes
  the photos that reference them.
\<close>

definition cascade_room_photos :: "nat list \<Rightarrow> room_photo_row list \<Rightarrow> room_photo_row list" where
  "cascade_room_photos deleted_rooms ps =
     filter (\<lambda>p. rp_room_id (rpr_columns p) \<notin> set deleted_rooms) ps"

text \<open>
  The effect of a successful call on the tables. Rows are kept in insertion order and a
  bulk insert generates the identifiers of its rows in input order.
\<close>

fun apply_call :: "string \<Rightarrow> call \<Rightarrow> 'a db_scheme \<Rightarrow> 'a db_scheme" where
  "apply_call t (SelectProperty pid) d = d"
| "apply_call t (SelectRooms pid) d = d"
| "apply_call t (InsertProperty p) d =
     d\<lparr>properties := properties d @ [new_property_row t (next_id d) p],
       next_id := Suc (next_id d)\<rparr>"
| "apply_call t (UpdateProperty pid p) d =
     d\<lparr>properties :=
         map (\<lambda>r. if pr_id r = pid then updated_property_row t p r else r) (properties d)\<rparr>"
| "apply_call t (DeleteRooms pid) d =
     d\<lparr>property_rooms :=
         filter (\<lambda>r. ri_property_id (rr_columns r) \<noteq> pid) (property_rooms d),
       room_photos :=
         cascade_room_photos (map rr_id (rooms_of pid (property_rooms d))) (room_photos d)\<rparr>"
| "apply_call t (InsertRooms cols) d =
     d\<lparr>property_rooms := property_rooms d @ new_room_rows (next_id d) cols,
       next_id := next_id d + length cols\<rparr>"
| "apply_call t (InsertRoomPhotos cols) d =
     d\<lparr>room_photos := room_photos d @ new_room_photo_rows (next_id d) cols,
       next_id := next_id d + length cols\<rparr>"
| "apply_call t (DeletePropertyPhotos pid) d =
     d\<lparr>property_photos :=
         filter (\<lambda>p. pp_property_id (ppr_columns p) \<noteq> pid) (property_photos d)\<rparr>"
| "apply_call t (InsertPropertyPhotos cols) d =
     d\<lparr>property_photos := property_photos d @ new_property_photo_rows (next_id d) cols,
       next_id := next_id d + length cols\<rparr>"

text \<open>
  One call on the client: it is logged; when the world makes it fail it returns the
  error and changes no table, otherwise it takes effect.
\<close>

definition persist :: "env \<Rightarrow> call \<Rightarrow> app \<Rightarrow> string option \<times> app" where
  "persist env c s =
     (case faults env (length (call_log s)) of
        Some msg \<Rightarrow> (Some msg, s\<lparr>call_log := call_log s @ [(c, False)]\<rparr>)
      | None \<Rightarrow> (None, (apply_call (now env) c s)\<lparr>call_log := call_log s @ [(c, True)]\<rparr>))"

text \<open>\<open>insert(...).select().single()\<close> and \<open>insert(...).select()\<close> return the stored rows.\<close>

definition insert_property :: "env \<Rightarrow> property_insert \<Rightarrow> app \<Rightarrow> (string + property_row) \<times> app" where
  "insert_property env p s =
     (case persist env (InsertProperty p) s of
        (Some error, s') \<Rightarrow> (Inl error, s')
      | (None, s') \<Rightarrow> (Inr (new_property_row (now env) (next_id s) p), s'))"

definition insert_rooms :: "env \<Rightarrow> room_insert list \<Rightarrow> app \<Rightarrow> (string + room_row list) \<times> app" where
  "insert_rooms env cols s =
     (case persist env (InsertRooms cols) s of
        (Some error, s') \<Rightarrow> (Inl error, s')
      | (None, s') \<Rightarrow> (Inr (new_room_rows (next_id s) cols), s'))"

section \<open>Submitting the form (handleSubmit)\<close>

definition roomsData :: "nat \<Rightarrow> room list \<Rightarrow> room_insert list" where
  "roomsData pid rs =
     map (\<lambda>room. \<lparr>ri_property_id = pid, ri_room_type = room_type room,
                   ri_bed_type = bed_type room, ri_max_guests = max_guests room,
                   ri_units_available = units_available room,
                   ri_facilities = facilities room, ri_price_lkr = price_lkr room\<rparr>) rs"

definition roomPhotosData :: "nat \<Rightarrow> string list \<Rightarrow> room_photo_insert list" where
  "roomPhotosData rid urls =
     map (\<lambda>(photoIndex, photoUrl).
            \<lparr>rp_room_id = rid, rp_photo_url = photoUrl, rp_sort_order = photoIndex\<rparr>)
         (enumerate 0 urls)"

definition photosData :: "nat \<Rightarrow> string list \<Rightarrow> property_photo_insert list" where
  "photosData pid urls =
     map (\<lambda>(index, u). \<lparr>pp_property_id = pid, pp_photo_url = u, pp_sort_order = index\<rparr>)
         (enumerate 0 urls)"

text \<open>
  The loop over \<open>formData.rooms[i]\<close> and \<open>rooms[i]\<close>, the rows the insert returned.
  Reading \<open>savedRoom.id\<close> of a missing row throws a \<open>TypeError\<close>. A failed insert
  of room photos is written to the console and the loop goes on.
\<close>

fun save_room_photos :: "env \<Rightarrow> room list \<Rightarrow> room_row list \<Rightarrow> app \<Rightarrow> (string + unit) \<times> app" where
  "save_room_photos env [] saved s = (Inr (), s)"
| "save_room_photos env (room # rest) saved s =
     (if length (room_photo_urls room) > 0 then
        (case saved of
           [] \<Rightarrow> (Inl ''Cannot read properties of undefined (reading id)'', s)
         | savedRoom # _ \<Rightarrow>
             (case persist env
                     (InsertRoomPhotos (roomPhotosData (rr_id savedRoom) (room_photo_urls room))) s of
                (Some roomPhotosError, s') \<Rightarrow>
                  save_room_photos env rest (tl saved)
                    (s'\<lparr>console := console s' @ [''Error saving room photos:'']\<rparr>)
              | (None, s') \<Rightarrow> save_room_photos env rest (tl saved) s'))
      else save_room_photos env rest (tl saved) s)"

text \<open>The block "create rooms", which the source has once in each branch.\<close>

definition save_rooms :: "env \<Rightarrow> nat \<Rightarrow> PropertyFormData \<Rightarrow> app \<Rightarrow> (string + unit) \<times> app" where
  "save_rooms env pid fd s =
     (if length (rooms fd) > 0 then
        (case insert_rooms env (roomsData pid (rooms fd)) s of
           (Inl roomsError, s') \<Rightarrow> (Inl roomsError, s')
         | (Inr saved, s') \<Rightarrow> save_room_photos env (rooms fd) saved s')
      else (Inr (), s))"

text \<open>The block "create property photos", also once in each branch.\<close>

definition save_photos :: "env \<Rightarrow> nat \<Rightarrow> PropertyFormData \<Rightarrow> app \<Rightarrow> (string + unit) \<times> app" where
  "save_photos env pid fd s =
     (if length (photos fd) > 0 then
        (case persist env (InsertPropertyPhotos (photosData pid (photos fd))) s of
           (Some photosError, s') \<Rightarrow> (Inl photosError, s')
         | (None, s') \<Rightarrow> (Inr (), s'))
      else (Inr (), s))"

definition create_payload :: "string \<Rightarrow> PropertyFormData \<Rightarrow> property_insert" where
  "create_payload uid fd =
     \<lparr>property_type = property_type fd, name = name fd, description = description fd,
      street_address = street_address fd, city = city fd, state = state fd,
      amenities = amenities fd, checkin_time = checkin_time fd,
      checkout_time = checkout_time fd, cancellation_policy = cancellation_policy fd,
      user_id = uid, status = ''published''\<rparr>"

definition update_payload :: "string \<Rightarrow> PropertyFormData \<Rightarrow> property_update" where
  "update_payload t fd =
     \<lparr>property_type = property_type fd, name = name fd, description = description fd,
      street_address = street_address fd, city = city fd, state = state fd,
      amenities = amenities fd, checkin_time = checkin_time fd,
      checkout_time = checkout_time fd, cancellation_policy = cancellation_policy fd,
      updated_at = t\<rparr>"

text \<open>The \<open>else\<close> branch of \<open>handleSubmit\<close>: a new property.\<close>

definition create_listing :: "env \<Rightarrow> string \<Rightarrow> PropertyFormData \<Rightarrow> app \<Rightarrow> (string + unit) \<times> app" where
  "create_listing env uid fd s =
     (case insert_property env (create_payload uid fd) s of
        (Inl propertyError, s1) \<Rightarrow> (Inl propertyError, s1)
      | (Inr property, s1) \<Rightarrow>
          (case save_rooms env (pr_id property) fd s1 of
             (Inl e, s2) \<Rightarrow> (Inl e, s2)
           | (Inr _, s2) \<Rightarrow> save_photos env (pr_id property) fd s2))"

text \<open>
  The \<open>isEditing\<close> branch: the property \<open>pid\<close> of the route is updated, its
  rooms are deleted and recreated, and so are its photos.
\<close>

definition recreate_rooms :: "env \<Rightarrow> nat \<Rightarrow> PropertyFormData \<Rightarrow> app \<Rightarrow> (string + unit) \<times> app" where
  "recreate_rooms env pid fd s =
     (case persist env (DeleteRooms pid) s of
        (Some deleteRoomsError, s') \<Rightarrow> (Inl deleteRoomsError, s')
      | (None, s') \<Rightarrow> save_rooms env pid fd s')"

definition recreate_photos :: "env \<Rightarrow> nat \<Rightarrow> PropertyFormData \<Rightarrow> app \<Rightarrow> (string + unit) \<times> app" where
  "recreate_photos env pid fd s =
     (case persist env (DeletePropertyPhotos pid) s of
        (Some deletePhotosError, s') \<Rightarrow> (Inl deletePhotosError, s')
      | (None, s') \<Rightarrow> save_photos env pid fd s')"

definition update_listing :: "env \<Rightarrow> nat \<Rightarrow> PropertyFormData \<Rightarrow> app \<Rightarrow> (string + unit) \<times> app" where
  "update_listing env pid fd s =
     (case persist env (UpdateProperty pid (update_payload (now env) fd)) s of
        (Some propertyError, s1) \<Rightarrow> (Inl propertyError, s1)
      | (None, s1) \<Rightarrow>
          (case recreate_rooms env pid fd s1 of
             (Inl e, s2) \<Rightarrow> (Inl e, s2)
           | (Inr _, s2) \<Rightarrow> recreate_photos env pid fd s2))"

text \<open>The validation loop at the head of \<open>handleSubmit\<close> stops at such a room.\<close>

definition missing_price :: "room \<Rightarrow> bool" where
  "missing_price room = (case price_lkr room of None \<Rightarrow> True | Some p \<Rightarrow> isNaN p)"

text \<open>
  \<open>handleSubmit\<close>, for the signed-in user (if any) and the \<open>id\<close> of the route (if
  any: \<open>isEditing = Boolean(id)\<close>).
\<close>

definition handleSubmit :: "env \<Rightarrow> string option \<Rightarrow> nat option \<Rightarrow> app \<Rightarrow> app" where
  "handleSubmit env user route_id s =
     (case user of
        None \<Rightarrow> s
      | Some uid \<Rightarrow>
          if list_ex missing_price (rooms (formData s)) then
            s\<lparr>toasts := toasts s @
               [\<lparr>title = ''Missing price'',
                 toast_description = ''Please enter a Price per Unit (LKR) for all rooms.'',
                 destructive = True\<rparr>],
              isSubmitting := False\<rparr>
          else
            (case (case route_id of
                     Some pid \<Rightarrow> update_listing env pid (formData s) s
                   | None \<Rightarrow> create_listing env uid (formData s) s) of
               (Inr _, s') \<Rightarrow>
                 s'\<lparr>toasts := toasts s' @
                     [if route_id \<noteq> None then
                        \<lparr>title = ''Property Updated Successfully!'',
                         toast_description = ''Your property has been updated.'',
                         destructive = False\<rparr>
                      else
                        \<lparr>title = ''Property Listed Successfully!'',
                         toast_description = ''Your property has been listed and is now live.'',
                         destructive = False\<rparr>],
                    navigated := navigated s' @ [''/dashboard''],
                    isSubmitting := False\<rparr>
             | (Inl error, s') \<Rightarrow>
                 s'\<lparr>console := console s' @ [''Error submitting property:''],
                    toasts := toasts s' @
                     [\<lparr>title = ''Error'',
                       toast_description =
                         message_or error
                           (if route_id \<noteq> None
                            then ''Failed to update property. Please try again.''
                            else ''Failed to list property. Please try again.''),
                       destructive = True\<rparr>],
                    isSubmitting := False\<rparr>))"

section \<open>Loading a property for editing (loadPropertyData)\<close>

text \<open>\<open>value || ''\<close> on a nullable text column.\<close>

definition or_empty :: "string option \<Rightarrow> string" where
  "or_empty v = (case v of None \<Rightarrow> '''' | Some x \<Rightarrow> x)"

text \<open>
  A stored room with its embedded \<open>room_photos\<close>, as an entry of the form. The
  select returns the rows of a table in the order they are stored. The column
  \<open>facilities\<close> always holds the array that \<open>handleSubmit\<close> wrote, so the
  test \<open>Array.isArray(facilities)\<close> succeeds.
\<close>

definition loaded_room :: "room_photo_row list \<Rightarrow> room_row \<Rightarrow> room" where
  "loaded_room ps r =
     \<lparr>existing_id = Some (rr_id r), room_type = ri_room_type (rr_columns r),
      bed_type = ri_bed_type (rr_columns r), max_guests = ri_max_guests (rr_columns r),
      units_available = ri_units_available (rr_columns r),
      facilities = ri_facilities (rr_columns r), price_lkr = ri_price_lkr (rr_columns r),
      room_photo_urls = map (\<lambda>p. rp_photo_url (rpr_columns p)) (photos_of_room (rr_id r) ps)\<rparr>"

definition loaded_form :: "'a db_scheme \<Rightarrow> property_row \<Rightarrow> PropertyFormData" where
  "loaded_form d propertyData =
     \<lparr>property_type = pr_property_type propertyData, name = pr_name propertyData,
      description = or_empty (pr_description propertyData),
      street_address = pr_street_address propertyData, city = pr_city propertyData,
      state = pr_state propertyData,
      amenities = (case pr_amenities propertyData of None \<Rightarrow> [] | Some a \<Rightarrow> a),
      checkin_time = or_empty (pr_checkin_time propertyData),
      checkout_time = or_empty (pr_checkout_time propertyData),
      cancellation_policy = or_empty (pr_cancellation_policy propertyData),
      rooms = map (loaded_room (room_photos d)) (rooms_of (pr_id propertyData) (property_rooms d)),
      photos = map (\<lambda>p. pp_photo_url (ppr_columns p))
                 (photos_of_property (pr_id propertyData) (property_photos d))\<rparr>"



section \<open>Runs in which no call fails\<close>

text \<open>The world lets every call on the database succeed.\<close>

definition no_faults :: "env \<Rightarrow> bool" where
  "no_faults env = (\<forall>k. faults env k = None)"

text \<open>
  The rows that the loop over the rooms stores, and the calls it makes, when no call
  fails: \<open>n\<close> is the next free identifier, \<open>saved\<close> the rows of the rooms.
\<close>

fun stored_room_photos :: "nat \<Rightarrow> room list \<Rightarrow> room_row list \<Rightarrow> room_photo_row list" where
  "stored_room_photos n [] saved = []"
| "stored_room_photos n (room # rest) saved =
     (case saved of
        [] \<Rightarrow> []
      | savedRoom # saved' \<Rightarrow>
          new_room_photo_rows n (roomPhotosData (rr_id savedRoom) (room_photo_urls room)) @
          stored_room_photos (n + length (room_photo_urls room)) rest saved')"

fun room_photo_calls :: "room list \<Rightarrow> room_row list \<Rightarrow> (call \<times> bool) list" where
  "room_photo_calls [] saved = []"
| "room_photo_calls (room # rest) saved =
     (case saved of
        [] \<Rightarrow> []
      | savedRoom # saved' \<Rightarrow>
          (if length (room_photo_urls room) > 0
           then [(InsertRoomPhotos (roomPhotosData (rr_id savedRoom) (room_photo_urls room)), True)]
           else []) @ room_photo_calls rest saved')"

section \<open>Notions used in the statements about failing calls\<close>

text \<open>The calls whose error \<open>handleSubmit\<close> throws: all but the insert of room photos.\<close>

definition throwing :: "call \<Rightarrow> bool" where
  "throwing c = (case c of InsertRoomPhotos cols \<Rightarrow> False | _ \<Rightarrow> True)"


text \<open>The tables of a state, without the page.\<close>

definition tables :: "'a db_scheme \<Rightarrow> db" where
  "tables d =
     \<lparr>properties = properties d, property_rooms = property_rooms d, room_photos = room_photos d,
      property_photos = property_photos d, next_id = next_id d\<rparr>"

text \<open>The effect of the successful calls of a log, in order.\<close>

definition replay :: "string \<Rightarrow> (call \<times> bool) list \<Rightarrow> 'a db_scheme \<Rightarrow> 'a db_scheme" where
  "replay t entries d = foldl (\<lambda>d c. apply_call t c d) d (map fst (filter snd entries))"

definition err_of :: "string + 'a \<Rightarrow> string option" where
  "err_of r = (case r of Inl e \<Rightarrow> Some e | Inr v \<Rightarrow> None)"

text \<open>Two states with the same page: form, step, flags, toasts and navigation.\<close>

definition same_page :: "app \<Rightarrow> app \<Rightarrow> bool" where
  "same_page s s' =
     (formData s' = formData s \<and> currentStep s' = currentStep s \<and>
      isSubmitting s' = isSubmitting s \<and> isUploading s' = isUploading s \<and>
      uploadingRoomIndex s' = uploadingRoomIndex s \<and> loading s' = loading s \<and>
      toasts s' = toasts s \<and> navigated s' = navigated s)"

text \<open>
  \<open>steps env K s err s'\<close>: from \<open>s\<close> a block of the sequencer made calls, all
  satisfying \<open>K\<close> and each failing exactly when the world says so, and reached
  \<open>s'\<close>, whose tables are the effect of the successful calls; it ended either normally,
  every failed call being an insert of room photos, or by throwing the error of its last
  call.
\<close>

definition steps :: "env \<Rightarrow> (call \<Rightarrow> bool) \<Rightarrow> app \<Rightarrow> string option \<Rightarrow> app \<Rightarrow> bool" where
  "steps env K s err s' =
     (\<exists>new.
        call_log s' = call_log s @ new \<and>
        tables s' = replay (now env) new (tables s) \<and>
        same_page s s' \<and>
        (\<forall>k < length new. snd (new ! k) = (faults env (length (call_log s) + k) = None)) \<and>
        (\<forall>e \<in> set new. K (fst e)) \<and>
        (case err of
           None \<Rightarrow> (\<forall>e \<in> set new. snd e \<or> \<not> throwing (fst e))
         | Some msg \<Rightarrow>
             (\<exists>pre c. new = pre @ [(c, False)] \<and> throwing c \<and>
                faults env (length (call_log s) + length pre) = Some msg \<and>
                (\<forall>e \<in> set pre. snd e \<or> \<not> throwing (fst e)))))"

text \<open>The two branches of \<open>handleSubmit\<close> and the toasts that follow them.\<close>

definition submit_result :: "env \<Rightarrow> string \<Rightarrow> nat option \<Rightarrow> app \<Rightarrow> (string + unit) \<times> app" where
  "submit_result env uid route_id s =
     (case route_id of
        Some pid \<Rightarrow> update_listing env pid (formData s) s
      | None \<Rightarrow> create_listing env uid (formData s) s)"

definition error_toast :: "nat option \<Rightarrow> string \<Rightarrow> toast" where
  "error_toast route_id msg =
     \<lparr>title = ''Error'',
      toast_description =
        message_or msg
          (if route_id \<noteq> None then ''Failed to update property. Please try again.''
           else ''Failed to list property. Please try again.''),
      destructive = True\<rparr>"

definition success_toast :: "nat option \<Rightarrow> toast" where
  "success_toast route_id =
     (if route_id \<noteq> None then
        \<lparr>title = ''Property Updated Successfully!'',
         toast_description = ''Your property has been updated.'', destructive = False\<rparr>
      else
        \<lparr>title = ''Property Listed Successfully!'',
         toast_description = ''Your property has been listed and is now live.'',
         destructive = False\<rparr>)"

text \<open>The first call of a submission that passed validation, and the toast of one that did not.\<close>

definition first_call :: "env \<Rightarrow> string \<Rightarrow> nat option \<Rightarrow> PropertyFormData \<Rightarrow> call" where
  "first_call env uid route_id fd =
     (case route_id of
        None \<Rightarrow> InsertProperty (create_payload uid fd)
      | Some pid \<Rightarrow> UpdateProperty pid (update_payload (now env) fd))"

definition missing_price_toast :: toast where
  "missing_price_toast =
     \<lparr>title = ''Missing price'',
      toast_description = ''Please enter a Price per Unit (LKR) for all rooms.'',
      destructive = True\<rparr>"

section \<open>Editing without a change\<close>



section \<open>The toasts of the upload handlers\<close>

definition upload_failed_toast :: "string \<Rightarrow> string \<Rightarrow> toast" where
  "upload_failed_toast err fallback =
     \<lparr>title = ''Upload failed'', toast_description = message_or err fallback, destructive = True\<rparr>"

definition too_many_files_toast :: "nat \<Rightarrow> toast" where
  "too_many_files_toast remaining =
     \<lparr>title = ''Too many files'',
      toast_description = ''Only '' @ string_of_nat remaining @
        '' more photo(s) can be uploaded (max '' @ string_of_nat MAX_PHOTOS @ '').'',
      destructive = False\<rparr>"

definition limit_reached_toast :: toast where
  "limit_reached_toast =
     \<lparr>title = ''Limit reached'',
      toast_description = ''You can upload up to '' @ string_of_nat MAX_PHOTOS @ '' photos.'',
      destructive = True\<rparr>"

definition room_limit_toast :: "nat \<Rightarrow> toast" where
  "room_limit_toast currentPhotos =
     \<lparr>title = ''Upload limit exceeded'',
      toast_description = ''You can only upload '' @ string_of_nat MAX_ROOM_PHOTOS @
        '' photos per room. Currently have '' @ string_of_nat currentPhotos @ '' photos.'',
      destructive = False\<rparr>"

text \<open>The URL under which a file that uploads successfully is stored.\<close>

definition uploaded_url :: "upload_env \<Rightarrow> File \<Rightarrow> string" where
  "uploaded_url env f = url (projr (uploadImageToCloudinary env f))"


section \<open>Concrete inputs\<close>

text \<open>An empty database and the page as it is first rendered.\<close>

definition app0 :: app where
  "app0 =
     \<lparr>properties = [], property_rooms = [], room_photos = [], property_photos = [], next_id = 0,
      call_log = [], console = [], formData = initialFormData, currentStep = 1,
      isSubmitting = False, isUploading = False, uploadingRoomIndex = None, loading = False,
      toasts = [], navigated = []\<rparr>"

text \<open>A world in which no call on the database fails.\<close>

definition env_ok :: env where
  "env_ok = \<lparr>faults = (\<lambda>k. None), now = ''2025-10-16T00:00:00.000Z''\<rparr>"

text \<open>A configured media host that stores every file under its own name.\<close>

definition upload_ok :: upload_env where
  "upload_ok =
     \<lparr>cloudName = Some ''demo'', uploadPreset = Some ''preset'',
      fetch = (\<lambda>f. Fetch_response True 200 None
                 (Inr \<lparr>json_secure_url = f, json_url = f, json_public_id = f\<rparr>))\<rparr>"

text \<open>A hotel with one room type, two photos of the room and one of the property.\<close>

definition seaside_form :: PropertyFormData where
  "seaside_form =
     \<lparr>property_type = ''Hotel'', name = ''Seaside Inn'', description = '''',
      street_address = ''1 Beach Road'', city = ''Galle'', state = ''Southern'',
      amenities = [], checkin_time = ''14:00'', checkout_time = ''11:00'',
      cancellation_policy = ''Free'',
      rooms = [\<lparr>existing_id = None, room_type = ''Sea view'', bed_type = ''Double'',
                max_guests = 2, units_available = 3, facilities = [],
                price_lkr = Some (Num 15000), room_photo_urls = [''a'', ''b'']\<rparr>],
      photos = [''front'']\<rparr>"







text \<open>
  A room one photo short of its limit, a property one photo short of its limit, and a
  media host that rejects one file.
\<close>

definition room_with_14_photos :: app where
  "room_with_14_photos =
     app0\<lparr>formData := initialFormData\<lparr>rooms := [newRoom\<lparr>room_photo_urls := replicate 14 ''p''\<rparr>]\<rparr>\<rparr>"

definition upload_flaky :: upload_env where
  "upload_flaky =
     \<lparr>cloudName = Some ''demo'', uploadPreset = Some ''preset'',
      fetch = (\<lambda>f. if f = ''bad.png''
                 then Fetch_response False 500 (Some ''server error'') (Inl ''no body'')
                 else Fetch_response True 200 None
                        (Inr \<lparr>json_secure_url = f, json_url = f, json_public_id = f\<rparr>))\<rparr>"

definition nineteen_photos :: app where
  "nineteen_photos = app0\<lparr>formData := initialFormData\<lparr>photos := replicate 19 ''p''\<rparr>\<rparr>"


section \<open>Index-addressed operations\<close>

lemma map_at_out: "index < 0 \<or> int (length xs) \<le> index \<Longrightarrow> map_at index f xs = xs"
  unfolding map_at_def
  by (rule nth_equalityI) (auto simp: nth_enumerate_eq)

lemma filter_not_at_out:
  assumes "index < 0 \<or> int (length xs) \<le> index"
  shows "filter_not_at index xs = xs"
proof -
  have "filter (\<lambda>(i, x). int i \<noteq> index) (enumerate 0 xs) = enumerate 0 xs"
    using assms by (auto simp: filter_id_conv in_set_enumerate_eq)
  then show ?thesis by (simp add: filter_not_at_def)
qed

lemma at_index_out: "index < 0 \<or> int (length xs) \<le> index \<Longrightarrow> at_index xs index = None"
  by (auto simp: at_index_def)


lemma step_update_fixed: "(s\<lparr>currentStep := k\<rparr> = s) = (currentStep s = k)"
  by (cases s) auto

text \<open>
  C10. An index that is not a position of \<open>rooms\<close> makes \<open>updateRoom\<close>,
  \<open>removeRoom\<close>, \<open>handleRoomPhotoUpload\<close> and \<open>removeRoomPhoto\<close> return the
  state they were given: nothing changes, no toast is shown, nothing is thrown.
\<close>

theorem out_of_range_room_index_noop:
  assumes "i < 0 \<or> int (length (rooms (formData s))) \<le> i"
  shows "updateRoom i fv s = s \<and> removeRoom i s = s \<and>
         handleRoomPhotoUpload env settle_order i files s = s \<and>
         removeRoomPhoto i photoIndex s = s"
  using assms
  by (simp add: updateRoom_def removeRoom_def handleRoomPhotoUpload_def removeRoomPhoto_def
      map_at_out filter_not_at_out at_index_out)

theorem out_of_range_room_index_noop_witness:
  "updateRoom 1 (Field_room_type ''Suite'') (addRoom app0) = addRoom app0 \<and>
   removeRoom (- 1) (addRoom app0) = addRoom app0 \<and>
   handleRoomPhotoUpload upload_ok [] 1 [''a.png''] (addRoom app0) = addRoom app0 \<and>
   removeRoomPhoto 7 0 (addRoom app0) = addRoom app0"
  using out_of_range_room_index_noop [of 1 "addRoom app0"]
    out_of_range_room_index_noop [of "- 1" "addRoom app0"]
    out_of_range_room_index_noop [of 7 "addRoom app0"]
  by (simp add: addRoom_def app0_def initialFormData_def)

section \<open>The step gate\<close>

text \<open>
  C7. A click on Next at the core-details step (2) advances to step 3 exactly when name,
  street address, city and state are all non-empty and leaves the page as it is
  otherwise; with the other three set it is blocked exactly when city is empty, and
  setting city alone unblocks it. At the property-type step (1) it advances exactly when
  a type is selected; at the amenities, rooms and policies steps (3, 4, 5) it always
  advances. The form data is never changed by the click.
\<close>

theorem forward_navigation_gate:
  "(currentStep s = 1 \<longrightarrow>
      (currentStep (click_next s) = 2) = (property_type (formData s) \<noteq> '''') \<and>
      (click_next s = s) = (property_type (formData s) = '''')) \<and>
   (currentStep s = 2 \<longrightarrow>
      (currentStep (click_next s) = 3) =
        (name (formData s) \<noteq> '''' \<and> street_address (formData s) \<noteq> '''' \<and>
         city (formData s) \<noteq> '''' \<and> state (formData s) \<noteq> '''') \<and>
      (click_next s = s) =
        (name (formData s) = '''' \<or> street_address (formData s) = '''' \<or>
         city (formData s) = '''' \<or> state (formData s) = '''')) \<and>
   (currentStep s = 2 \<and> name (formData s) \<noteq> '''' \<and> street_address (formData s) \<noteq> '''' \<and>
    state (formData s) \<noteq> '''' \<longrightarrow>
      (click_next s = s) = (city (formData s) = '''') \<and>
      (v \<noteq> '''' \<longrightarrow>
         currentStep (click_next (s\<lparr>formData := (formData s)\<lparr>city := v\<rparr>\<rparr>)) = 3)) \<and>
   (currentStep s \<in> {3, 4, 5} \<longrightarrow> currentStep (click_next s) = currentStep s + 1) \<and>
   formData (click_next s) = formData s"
  by (auto simp: click_next_def nextStep_def next_disabled_def totalSteps_def step_update_fixed)

theorem forward_navigation_gate_witness:
  "currentStep (click_next (app0\<lparr>currentStep := 2,
      formData := initialFormData\<lparr>name := ''Seaside Inn'', street_address := ''1 Beach Road'',
        state := ''Southern''\<rparr>\<rparr>)) = 2 \<and>
   currentStep (click_next (app0\<lparr>currentStep := 2,
      formData := initialFormData\<lparr>name := ''Seaside Inn'', street_address := ''1 Beach Road'',
        state := ''Southern'', city := ''Galle''\<rparr>\<rparr>)) = 3"
  using forward_navigation_gate [of "app0\<lparr>currentStep := 2,
      formData := initialFormData\<lparr>name := ''Seaside Inn'', street_address := ''1 Beach Road'',
        state := ''Southern''\<rparr>\<rparr>" "''Galle''"]
  by (simp add: app0_def initialFormData_def)

section \<open>The rows a submission stores\<close>

lemma persist_ok:
  "no_faults env \<Longrightarrow>
   persist env c s = (None, (apply_call (now env) c s)\<lparr>call_log := call_log s @ [(c, True)]\<rparr>)"
  by (simp add: persist_def no_faults_def)

lemma roomPhotosData_Nil [simp]: "roomPhotosData rid [] = []"
  by (simp add: roomPhotosData_def)

lemma new_room_photo_rows_Nil [simp]: "new_room_photo_rows n [] = []"
  by (simp add: new_room_photo_rows_def)

lemma length_roomPhotosData [simp]: "length (roomPhotosData rid urls) = length urls"
  by (simp add: roomPhotosData_def)

lemma length_new_room_photo_rows [simp]: "length (new_room_photo_rows n cols) = length cols"
  by (simp add: new_room_photo_rows_def)

lemma length_stored_room_photos:
  "length rs \<le> length saved \<Longrightarrow>
   length (stored_room_photos n rs saved) = sum_list (map (\<lambda>r. length (room_photo_urls r)) rs)"
  by (induction n rs saved rule: stored_room_photos.induct) (auto split: list.splits)

lemma save_room_photos_ok:
  assumes "no_faults env" and "length rs \<le> length saved"
  shows "save_room_photos env rs saved s =
     (Inr (), s\<lparr>room_photos := room_photos s @ stored_room_photos (next_id s) rs saved,
               next_id := next_id s + length (stored_room_photos (next_id s) rs saved),
               call_log := call_log s @ room_photo_calls rs saved\<rparr>)"
  using assms(2)
proof (induction rs arbitrary: saved s)
  case Nil
  then show ?case by simp
next
  case (Cons room rest)
  then obtain savedRoom saved' where sv: "saved = savedRoom # saved'"
    by (cases saved) auto
  with Cons.prems have len: "length rest \<le> length saved'" by simp
  show ?case
  proof (cases "length (room_photo_urls room) > 0")
    case True
    then show ?thesis
      using Cons.IH [OF len] sv
      by (simp add: persist_ok [OF assms(1)] add.assoc)
  next
    case False
    then show ?thesis
      using Cons.IH [OF len] sv by simp
  qed
qed

lemma length_roomsData [simp]: "length (roomsData pid rs) = length rs"
  by (simp add: roomsData_def)

lemma length_new_room_rows [simp]: "length (new_room_rows n cols) = length cols"
  by (simp add: new_room_rows_def)

lemma new_room_rows_Nil [simp]: "new_room_rows n [] = []"
  by (simp add: new_room_rows_def)

lemma new_room_rows_Cons [simp]:
  "new_room_rows n (c # cols) = \<lparr>rr_id = n, rr_columns = c\<rparr> # new_room_rows (Suc n) cols"
  by (simp add: new_room_rows_def)

lemma stored_room_photos_Nil [simp]: "stored_room_photos n [] saved = []"
  by simp

lemma save_rooms_ok:
  assumes "no_faults env"
  shows "save_rooms env pid fd s =
     (Inr (),
      s\<lparr>property_rooms := property_rooms s @ new_room_rows (next_id s) (roomsData pid (rooms fd)),
        room_photos := room_photos s @
          stored_room_photos (next_id s + length (rooms fd)) (rooms fd)
            (new_room_rows (next_id s) (roomsData pid (rooms fd))),
        next_id := next_id s + length (rooms fd) +
          length (stored_room_photos (next_id s + length (rooms fd)) (rooms fd)
            (new_room_rows (next_id s) (roomsData pid (rooms fd)))),
        call_log := call_log s @
          (if length (rooms fd) > 0 then [(InsertRooms (roomsData pid (rooms fd)), True)] else []) @
          room_photo_calls (rooms fd) (new_room_rows (next_id s) (roomsData pid (rooms fd)))\<rparr>)"
proof (cases "length (rooms fd) > 0")
  case True
  then show ?thesis
    by (simp add: save_rooms_def insert_rooms_def persist_ok [OF assms]
        save_room_photos_ok [OF assms] add.assoc)
next
  case False
  then show ?thesis
    by (simp add: save_rooms_def roomsData_def)
qed

lemma photosData_Nil [simp]: "photosData pid [] = []"
  by (simp add: photosData_def)

lemma new_property_photo_rows_Nil [simp]: "new_property_photo_rows n [] = []"
  by (simp add: new_property_photo_rows_def)

lemma length_photosData [simp]: "length (photosData pid urls) = length urls"
  by (simp add: photosData_def)

lemma save_photos_ok:
  assumes "no_faults env"
  shows "save_photos env pid fd s =
     (Inr (),
      s\<lparr>property_photos := property_photos s @
          new_property_photo_rows (next_id s) (photosData pid (photos fd)),
        next_id := next_id s + length (photos fd),
        call_log := call_log s @
          (if length (photos fd) > 0
           then [(InsertPropertyPhotos (photosData pid (photos fd)), True)] else [])\<rparr>)"
proof (cases "length (photos fd) > 0")
  case True
  then show ?thesis
    by (simp add: save_photos_def persist_ok [OF assms])
next
  case False
  then show ?thesis
    by (simp add: save_photos_def)
qed

lemma columns_new_room_photo_rows [simp]:
  "map rpr_columns (new_room_photo_rows n cols) = cols"
  by (simp add: new_room_photo_rows_def map_snd_enumerate comp_def case_prod_beta
      flip: map_map [where f = "\<lambda>c. c" and g = snd]) 

lemma columns_new_room_rows [simp]: "map rr_columns (new_room_rows n cols) = cols"
  by (induction cols arbitrary: n) auto

lemma columns_new_property_photo_rows [simp]:
  "map ppr_columns (new_property_photo_rows n cols) = cols"
  by (simp add: new_property_photo_rows_def map_snd_enumerate comp_def case_prod_beta
      flip: map_map [where f = "\<lambda>c. c" and g = snd])

lemma columns_stored_room_photos:
  "length cols = length rs \<Longrightarrow>
   map rpr_columns (stored_room_photos n rs (new_room_rows b cols)) =
     concat (map (\<lambda>(i, room). roomPhotosData i (room_photo_urls room)) (enumerate b rs))"
proof (induction rs arbitrary: cols n b)
  case Nil
  then show ?case by simp
next
  case (Cons room rest)
  then obtain c cols' where "cols = c # cols'" "length cols' = length rest"
    by (cases cols) auto
  then show ?case
    using Cons.IH [of cols' "n + length (room_photo_urls room)" "Suc b"] by simp
qed

lemma create_listing_ok:
  assumes "no_faults env"
  shows "create_listing env uid fd s =
     (Inr (),
      s\<lparr>properties := properties s @ [new_property_row (now env) (next_id s) (create_payload uid fd)],
        property_rooms := property_rooms s @
          new_room_rows (Suc (next_id s)) (roomsData (next_id s) (rooms fd)),
        room_photos := room_photos s @
          stored_room_photos (Suc (next_id s) + length (rooms fd)) (rooms fd)
            (new_room_rows (Suc (next_id s)) (roomsData (next_id s) (rooms fd))),
        property_photos := property_photos s @
          new_property_photo_rows
            (Suc (next_id s) + length (rooms fd) +
              length (stored_room_photos (Suc (next_id s) + length (rooms fd)) (rooms fd)
                (new_room_rows (Suc (next_id s)) (roomsData (next_id s) (rooms fd)))))
            (photosData (next_id s) (photos fd)),
        next_id := Suc (next_id s) + length (rooms fd) +
              length (stored_room_photos (Suc (next_id s) + length (rooms fd)) (rooms fd)
                (new_room_rows (Suc (next_id s)) (roomsData (next_id s) (rooms fd)))) +
              length (photos fd),
        call_log := call_log s @
          [(InsertProperty (create_payload uid fd), True)] @
          (if length (rooms fd) > 0
           then [(InsertRooms (roomsData (next_id s) (rooms fd)), True)] else []) @
          room_photo_calls (rooms fd)
            (new_room_rows (Suc (next_id s)) (roomsData (next_id s) (rooms fd))) @
          (if length (photos fd) > 0
           then [(InsertPropertyPhotos (photosData (next_id s) (photos fd)), True)] else [])\<rparr>)"
  by (simp add: create_listing_def insert_property_def persist_ok [OF assms]
      save_rooms_ok [OF assms] save_photos_ok [OF assms] new_property_row_def)

lemma new_room_rows_roomsData:
  "new_room_rows n (roomsData pid rs) =
     map (\<lambda>(i, room).
            \<lparr>rr_id = i,
             rr_columns = \<lparr>ri_property_id = pid, ri_room_type = room_type room,
               ri_bed_type = bed_type room, ri_max_guests = max_guests room,
               ri_units_available = units_available room,
               ri_facilities = facilities room, ri_price_lkr = price_lkr room\<rparr>\<rparr>)
         (enumerate n rs)"
  by (induction rs arbitrary: n) (simp_all add: roomsData_def)

text \<open>
  C1. When the signed-in user submits a form whose rooms all have a price, in create mode
  and with no call failing, exactly one row is added to \<open>properties\<close>, with a
  generated identifier and status \<open>published\<close>; one row per room is added to
  \<open>property_rooms\<close>, in the order of the form, each referencing that identifier; for
  every room its photos are added to \<open>room_photos\<close>, referencing the identifier
  generated for the room, with \<open>sort_order\<close> 0, 1, ... in the order of its array;
  and the photos of the property are added to \<open>property_photos\<close> with
  \<open>sort_order\<close> equal to their position.
\<close>

theorem create_mode_rows:
  assumes "no_faults env" and "\<not> list_ex missing_price (rooms (formData s))"
  shows
    "properties (handleSubmit env (Some uid) None s) =
       properties s @ [new_property_row (now env) (next_id s) (create_payload uid (formData s))] \<and>
     pr_id (last (properties (handleSubmit env (Some uid) None s))) = next_id s \<and>
     pr_status (last (properties (handleSubmit env (Some uid) None s))) = Some ''published'' \<and>
     property_rooms (handleSubmit env (Some uid) None s) =
       property_rooms s @
       map (\<lambda>(i, room).
              \<lparr>rr_id = i,
               rr_columns = \<lparr>ri_property_id = next_id s, ri_room_type = room_type room,
                 ri_bed_type = bed_type room, ri_max_guests = max_guests room,
                 ri_units_available = units_available room,
                 ri_facilities = facilities room, ri_price_lkr = price_lkr room\<rparr>\<rparr>)
           (enumerate (Suc (next_id s)) (rooms (formData s))) \<and>
     map rpr_columns (room_photos (handleSubmit env (Some uid) None s)) =
       map rpr_columns (room_photos s) @
       concat (map (\<lambda>(i, room).
                      map (\<lambda>(k, u). \<lparr>rp_room_id = i, rp_photo_url = u, rp_sort_order = k\<rparr>)
                        (enumerate 0 (room_photo_urls room)))
                 (enumerate (Suc (next_id s)) (rooms (formData s)))) \<and>
     map ppr_columns (property_photos (handleSubmit env (Some uid) None s)) =
       map ppr_columns (property_photos s) @
       map (\<lambda>(k, u). \<lparr>pp_property_id = next_id s, pp_photo_url = u, pp_sort_order = k\<rparr>)
         (enumerate 0 (photos (formData s)))"
proof -
  let ?s' = "handleSubmit env (Some uid) None s"
  have a: "properties ?s' =
      properties s @ [new_property_row (now env) (next_id s) (create_payload uid (formData s))]"
    using assms(2) by (simp add: handleSubmit_def create_listing_ok [OF assms(1)])
  have b: "property_rooms ?s' =
      property_rooms s @ new_room_rows (Suc (next_id s)) (roomsData (next_id s) (rooms (formData s)))"
    using assms(2) by (simp add: handleSubmit_def create_listing_ok [OF assms(1)])
  have c: "map rpr_columns (room_photos ?s') =
      map rpr_columns (room_photos s) @
      concat (map (\<lambda>(i, room). roomPhotosData i (room_photo_urls room))
                (enumerate (Suc (next_id s)) (rooms (formData s))))"
    using assms(2)
    by (simp add: handleSubmit_def create_listing_ok [OF assms(1)] columns_stored_room_photos)
  have d: "map ppr_columns (property_photos ?s') =
      map ppr_columns (property_photos s) @ photosData (next_id s) (photos (formData s))"
    using assms(2) by (simp add: handleSubmit_def create_listing_ok [OF assms(1)])
  show ?thesis
    unfolding a b c d
    by (simp add: new_room_rows_roomsData new_property_row_def create_payload_def
        roomPhotosData_def photosData_def)
qed

lemma no_faults_env_ok: "no_faults env_ok"
  by (simp add: no_faults_def env_ok_def)

theorem create_mode_rows_witness:
  "map (\<lambda>r. (pr_id r, pr_name r, pr_status r))
     (properties (handleSubmit env_ok (Some ''owner'') None (app0\<lparr>formData := seaside_form\<rparr>))) =
     [(0, ''Seaside Inn'', Some ''published'')] \<and>
   map (\<lambda>r. (rr_id r, ri_property_id (rr_columns r), ri_price_lkr (rr_columns r)))
     (property_rooms (handleSubmit env_ok (Some ''owner'') None (app0\<lparr>formData := seaside_form\<rparr>))) =
     [(1, 0, Some (Num 15000))] \<and>
   map rpr_columns
     (room_photos (handleSubmit env_ok (Some ''owner'') None (app0\<lparr>formData := seaside_form\<rparr>))) =
     [\<lparr>rp_room_id = 1, rp_photo_url = ''a'', rp_sort_order = 0\<rparr>,
      \<lparr>rp_room_id = 1, rp_photo_url = ''b'', rp_sort_order = 1\<rparr>] \<and>
   map ppr_columns
     (property_photos (handleSubmit env_ok (Some ''owner'') None (app0\<lparr>formData := seaside_form\<rparr>))) =
     [\<lparr>pp_property_id = 0, pp_photo_url = ''front'', pp_sort_order = 0\<rparr>]"
  using create_mode_rows [OF no_faults_env_ok, of "app0\<lparr>formData := seaside_form\<rparr>" "''owner''"]
  by (simp add: app0_def seaside_form_def missing_price_def isNaN_def new_property_row_def
      create_payload_def enumerate_eq_zip)


section \<open>Failing calls\<close>

lemma tables_apply_call: "tables (apply_call t c d) = apply_call t c (tables d)"
  by (cases c) (simp_all add: tables_def)

lemma tables_foldl:
  "tables (foldl (\<lambda>d c. apply_call t c d) d cs) = foldl (\<lambda>d c. apply_call t c d) (tables d) cs"
  by (induction cs arbitrary: d) (simp_all add: tables_apply_call)

lemma tables_replay: "tables (replay t new d) = replay t new (tables d)"
  by (simp add: replay_def tables_foldl)

lemma replay_append [simp]: "replay t (a @ b) s = replay t b (replay t a s)"
  by (simp add: replay_def)

lemma replay_Nil [simp]: "replay t [] s = s"
  by (simp add: replay_def)

lemma replay_single [simp]:
  "replay t [(c, ok)] s = (if ok then apply_call t c s else s)"
  by (simp add: replay_def)

lemma same_page_apply_call [simp]: "same_page s (apply_call t c s)"
  by (cases c) (simp_all add: same_page_def)

lemma same_page_refl [simp]: "same_page s s"
  by (simp add: same_page_def)

lemma same_page_call_log [simp]: "same_page s (x\<lparr>call_log := l\<rparr>) = same_page s x"
  by (simp add: same_page_def)

lemma same_page_console [simp]: "same_page s (x\<lparr>console := l\<rparr>) = same_page s x"
  by (simp add: same_page_def)

lemma same_page_trans: "same_page s s1 \<Longrightarrow> same_page s1 s2 \<Longrightarrow> same_page s s2"
  by (simp add: same_page_def)

lemma call_log_apply_call [simp]: "call_log (apply_call t c s) = call_log s"
  by (cases c) simp_all

lemma console_apply_call [simp]: "console (apply_call t c s) = console s"
  by (cases c) simp_all

lemma tables_call_log [simp]: "tables (s\<lparr>call_log := l\<rparr>) = tables s"
  by (simp add: tables_def)

lemma tables_console [simp]: "tables (s\<lparr>console := l\<rparr>) = tables s"
  by (simp add: tables_def)

lemma steps_refl: "steps env K s None s"
  unfolding steps_def by (rule exI [of _ "[]"]) simp

lemma steps_console: "steps env K s err s' \<Longrightarrow> steps env K s err (s'\<lparr>console := x\<rparr>)"
  unfolding steps_def by simp

lemma persist_cases:
  "persist env c s =
     (faults env (length (call_log s)),
      (if faults env (length (call_log s)) = None then apply_call (now env) c s else s)
        \<lparr>call_log := call_log s @ [(c, faults env (length (call_log s)) = None)]\<rparr>)"
  by (simp add: persist_def split: option.split)

lemma steps_persist:
  assumes "K c" and "throwing c"
  shows "steps env K s (fst (persist env c s)) (snd (persist env c s))"
  unfolding steps_def
  apply (rule exI [of _ "[(c, faults env (length (call_log s)) = None)]"])
  using assms
  apply (auto simp: persist_cases tables_apply_call)
  done

lemma steps_persist_quiet:
  assumes "K c" and "\<not> throwing c"
  shows "steps env K s None (snd (persist env c s))"
  unfolding steps_def
  apply (rule exI [of _ "[(c, faults env (length (call_log s)) = None)]"])
  using assms
  apply (auto simp: persist_cases tables_apply_call)
  done

lemma steps_trans:
  assumes "steps env K s None s1" and "steps env K s1 err s2"
  shows "steps env K s err s2"
proof -
  from assms(1) obtain new1 where n1:
    "call_log s1 = call_log s @ new1" "tables s1 = replay (now env) new1 (tables s)"
    "same_page s s1"
    "\<forall>k < length new1. snd (new1 ! k) = (faults env (length (call_log s) + k) = None)"
    "\<forall>e \<in> set new1. K (fst e)"
    "\<forall>e \<in> set new1. snd e \<or> \<not> throwing (fst e)"
    unfolding steps_def by auto
  from assms(2) obtain new2 where n2:
    "call_log s2 = call_log s1 @ new2" "tables s2 = replay (now env) new2 (tables s1)"
    "same_page s1 s2"
    "\<forall>k < length new2. snd (new2 ! k) = (faults env (length (call_log s1) + k) = None)"
    "\<forall>e \<in> set new2. K (fst e)"
    "case err of
       None \<Rightarrow> (\<forall>e \<in> set new2. snd e \<or> \<not> throwing (fst e))
     | Some msg \<Rightarrow>
         (\<exists>pre c. new2 = pre @ [(c, False)] \<and> throwing c \<and>
            faults env (length (call_log s1) + length pre) = Some msg \<and>
            (\<forall>e \<in> set pre. snd e \<or> \<not> throwing (fst e)))"
    unfolding steps_def by auto
  have flags: "\<forall>k < length (new1 @ new2).
      snd ((new1 @ new2) ! k) = (faults env (length (call_log s) + k) = None)"
  proof (intro allI impI)
    fix k assume "k < length (new1 @ new2)"
    show "snd ((new1 @ new2) ! k) = (faults env (length (call_log s) + k) = None)"
    proof (cases "k < length new1")
      case True
      then show ?thesis using n1(4) by (simp add: nth_append)
    next
      case False
      then have "k - length new1 < length new2" using \<open>k < length (new1 @ new2)\<close> by simp
      with n2(4) have "snd (new2 ! (k - length new1)) =
          (faults env (length (call_log s1) + (k - length new1)) = None)" by blast
      moreover have "length (call_log s1) + (k - length new1) = length (call_log s) + k"
        using False n1(1) by simp
      ultimately show ?thesis using False by (simp add: nth_append)
    qed
  qed
  have err: "case err of
       None \<Rightarrow> (\<forall>e \<in> set (new1 @ new2). snd e \<or> \<not> throwing (fst e))
     | Some msg \<Rightarrow>
         (\<exists>pre c. new1 @ new2 = pre @ [(c, False)] \<and> throwing c \<and>
            faults env (length (call_log s) + length pre) = Some msg \<and>
            (\<forall>e \<in> set pre. snd e \<or> \<not> throwing (fst e)))"
  proof (cases err)
    case None
    then show ?thesis using n1(6) n2(6) by auto
  next
    case (Some msg)
    with n2(6) obtain pre c where p: "new2 = pre @ [(c, False)]" "throwing c"
      "faults env (length (call_log s1) + length pre) = Some msg"
      "\<forall>e \<in> set pre. snd e \<or> \<not> throwing (fst e)" by auto
    have "new1 @ new2 = (new1 @ pre) @ [(c, False)]" using p(1) by simp
    moreover have "faults env (length (call_log s) + length (new1 @ pre)) = Some msg"
      using p(3) n1(1) by (simp add: add.assoc)
    moreover have "\<forall>e \<in> set (new1 @ pre). snd e \<or> \<not> throwing (fst e)"
      using p(4) n1(6) by auto
    ultimately have "\<exists>pre' c. new1 @ new2 = pre' @ [(c, False)] \<and> throwing c \<and>
            faults env (length (call_log s) + length pre') = Some msg \<and>
            (\<forall>e \<in> set pre'. snd e \<or> \<not> throwing (fst e))"
      using p(2) by blast
    then show ?thesis using Some by simp
  qed
  show ?thesis
    unfolding steps_def
    apply (rule exI [of _ "new1 @ new2"])
    using n1(1,2,3,5) n2(1,2,3,5) flags err
    by (auto intro: same_page_trans)
qed


lemma err_of_simps [simp]: "err_of (Inl e) = Some e" "err_of (Inr v) = None"
  by (simp_all add: err_of_def)

lemma throwing_simps [simp]:
  "throwing (SelectProperty pid)" "throwing (SelectRooms pid)" "throwing (InsertProperty p)"
  "throwing (UpdateProperty pid u)" "throwing (DeleteRooms pid)" "throwing (InsertRooms rs)"
  "\<not> throwing (InsertRoomPhotos ps)" "throwing (DeletePropertyPhotos pid)"
  "throwing (InsertPropertyPhotos pps)"
  by (simp_all add: throwing_def)

lemma steps_save_room_photos:
  assumes K: "\<And>cols. K (InsertRoomPhotos cols)" and len: "length rs \<le> length saved"
  shows "fst (save_room_photos env rs saved s) = Inr () \<and>
         steps env K s None (snd (save_room_photos env rs saved s))"
  using len
proof (induction rs arbitrary: saved s)
  case Nil
  then show ?case by (simp add: steps_refl)
next
  case (Cons room rest)
  then obtain savedRoom saved' where sv: "saved = savedRoom # saved'"
    by (cases saved) auto
  with Cons.prems have len': "length rest \<le> length saved'" by simp
  show ?case
  proof (cases "length (room_photo_urls room) > 0")
    case False
    then show ?thesis using Cons.IH [OF len'] sv by simp
  next
    case True
    let ?c = "InsertRoomPhotos (roomPhotosData (rr_id savedRoom) (room_photo_urls room))"
    let ?s1 = "snd (persist env ?c s)"
    have st1: "steps env K s None ?s1"
      by (rule steps_persist_quiet) (simp_all add: K)
    show ?thesis
    proof (cases "fst (persist env ?c s)")
      case None
      then have eq: "save_room_photos env (room # rest) saved s = save_room_photos env rest saved' ?s1"
        using True sv by (simp add: prod.case_eq_if)
      show ?thesis
        unfolding eq using Cons.IH [OF len', of ?s1] steps_trans [OF st1] by blast
    next
      case (Some e)
      let ?s2 = "?s1\<lparr>console := console ?s1 @ [''Error saving room photos:'']\<rparr>"
      from Some have eq: "save_room_photos env (room # rest) saved s =
          save_room_photos env rest saved' ?s2"
        using True sv by (simp add: prod.case_eq_if)
      have st2: "steps env K s None ?s2"
        by (rule steps_console [OF st1])
      show ?thesis
        unfolding eq using Cons.IH [OF len', of ?s2] steps_trans [OF st2] by blast
    qed
  qed
qed

lemma steps_save_rooms:
  assumes K: "\<And>cols. K (InsertRoomPhotos cols)" "\<And>cols. K (InsertRooms cols)"
  shows "steps env K s (err_of (fst (save_rooms env pid fd s))) (snd (save_rooms env pid fd s))"
proof (cases "length (rooms fd) > 0")
  case False
  then show ?thesis by (simp add: save_rooms_def steps_refl)
next
  case True
  let ?c = "InsertRooms (roomsData pid (rooms fd))"
  have st1: "steps env K s (fst (persist env ?c s)) (snd (persist env ?c s))"
    by (rule steps_persist) (simp_all add: K)
  show ?thesis
  proof (cases "fst (persist env ?c s)")
    case (Some e)
    then show ?thesis
      using True st1 by (simp add: save_rooms_def insert_rooms_def prod.case_eq_if)
  next
    case None
    let ?saved = "new_room_rows (next_id s) (roomsData pid (rooms fd))"
    have "length (rooms fd) \<le> length ?saved" by simp
    from steps_save_room_photos [of K, OF K(1) this, of env "snd (persist env ?c s)"]
    show ?thesis
      using True None st1
      by (auto simp: save_rooms_def insert_rooms_def prod.case_eq_if intro: steps_trans)
  qed
qed

lemma steps_save_photos:
  assumes K: "\<And>cols. K (InsertPropertyPhotos cols)"
  shows "steps env K s (err_of (fst (save_photos env pid fd s))) (snd (save_photos env pid fd s))"
proof (cases "length (photos fd) > 0")
  case False
  then show ?thesis by (simp add: save_photos_def steps_refl)
next
  case True
  let ?c = "InsertPropertyPhotos (photosData pid (photos fd))"
  have st1: "steps env K s (fst (persist env ?c s)) (snd (persist env ?c s))"
    by (rule steps_persist) (simp_all add: K)
  then show ?thesis
    using True by (cases "fst (persist env ?c s)") (simp_all add: save_photos_def prod.case_eq_if)
qed



lemma steps_recreate_rooms:
  assumes K: "\<And>c. K c"
  shows "steps env K s (err_of (fst (recreate_rooms env pid fd s)))
           (snd (recreate_rooms env pid fd s))"
proof -
  let ?c = "DeleteRooms pid"
  have st1: "steps env K s (fst (persist env ?c s)) (snd (persist env ?c s))"
    by (rule steps_persist) (simp_all add: K)
  have st2: "steps env K (snd (persist env ?c s))
      (err_of (fst (save_rooms env pid fd (snd (persist env ?c s)))))
      (snd (save_rooms env pid fd (snd (persist env ?c s))))"
    by (rule steps_save_rooms) (simp_all add: K)
  show ?thesis
  proof (cases "fst (persist env ?c s)")
    case (Some e)
    then show ?thesis using st1 by (simp add: recreate_rooms_def prod.case_eq_if)
  next
    case None
    with st1 have "steps env K s None (snd (persist env ?c s))" by simp
    from steps_trans [OF this st2] show ?thesis
      using None by (simp add: recreate_rooms_def prod.case_eq_if)
  qed
qed

lemma steps_recreate_photos:
  assumes K: "\<And>c. K c"
  shows "steps env K s (err_of (fst (recreate_photos env pid fd s)))
           (snd (recreate_photos env pid fd s))"
proof -
  let ?c = "DeletePropertyPhotos pid"
  have st1: "steps env K s (fst (persist env ?c s)) (snd (persist env ?c s))"
    by (rule steps_persist) (simp_all add: K)
  have st2: "steps env K (snd (persist env ?c s))
      (err_of (fst (save_photos env pid fd (snd (persist env ?c s)))))
      (snd (save_photos env pid fd (snd (persist env ?c s))))"
    by (rule steps_save_photos) (simp_all add: K)
  show ?thesis
  proof (cases "fst (persist env ?c s)")
    case (Some e)
    then show ?thesis using st1 by (simp add: recreate_photos_def prod.case_eq_if)
  next
    case None
    with st1 have "steps env K s None (snd (persist env ?c s))" by simp
    from steps_trans [OF this st2] show ?thesis
      using None by (simp add: recreate_photos_def prod.case_eq_if)
  qed
qed



lemma handleSubmit_valid:
  assumes "\<not> list_ex missing_price (rooms (formData s))"
  shows "handleSubmit env (Some uid) route_id s =
     (case submit_result env uid route_id s of
        (Inr u, s') \<Rightarrow>
          s'\<lparr>toasts := toasts s' @ [success_toast route_id],
             navigated := navigated s' @ [''/dashboard''], isSubmitting := False\<rparr>
      | (Inl error, s') \<Rightarrow>
          s'\<lparr>console := console s' @ [''Error submitting property:''],
             toasts := toasts s' @ [error_toast route_id error], isSubmitting := False\<rparr>)"
  using assms
  by (simp add: handleSubmit_def submit_result_def error_toast_def success_toast_def
      split: option.split prod.split sum.split)







section \<open>The price validation at submit\<close>

lemma missing_price_iff:
  "missing_price room = (price_lkr room = None \<or> price_lkr room = Some NaN)"
  by (simp add: missing_price_def isNaN_def split: option.split)

lemma steps_log: "steps env K s err s' \<Longrightarrow> \<exists>new. call_log s' = call_log s @ new"
  unfolding steps_def by blast

lemma persist_log:
  "call_log (snd (persist env c s)) = call_log s @ [(c, faults env (length (call_log s)) = None)]"
  by (simp add: persist_cases)

lemma create_listing_first_call:
  "\<exists>ok rest. call_log (snd (create_listing env uid fd s)) =
     call_log s @ (InsertProperty (create_payload uid fd), ok) # rest"
proof -
  let ?c = "InsertProperty (create_payload uid fd)"
  let ?s1 = "snd (persist env ?c s)"
  let ?r2 = "save_rooms env (next_id s) fd ?s1"
  let ?r3 = "save_photos env (next_id s) fd (snd ?r2)"
  obtain new2 where l2: "call_log (snd ?r2) = call_log ?s1 @ new2"
    using steps_log [OF steps_save_rooms [of "\<lambda>c. True" env ?s1 "next_id s" fd]] by auto
  obtain new3 where l3: "call_log (snd ?r3) = call_log (snd ?r2) @ new3"
    using steps_log [OF steps_save_photos [of "\<lambda>c. True" env "snd ?r2" "next_id s" fd]] by auto
  show ?thesis
  proof (cases "fst (persist env ?c s)")
    case (Some e)
    then show ?thesis
      by (simp add: create_listing_def insert_property_def prod.case_eq_if persist_log)
  next
    case None
    show ?thesis
    proof (cases "fst ?r2")
      case (Inl e)
      then show ?thesis
        using None l2
        by (simp add: create_listing_def insert_property_def prod.case_eq_if persist_log
            new_property_row_def)
    next
      case (Inr u)
      then show ?thesis
        using None l2 l3
        by (simp add: create_listing_def insert_property_def prod.case_eq_if persist_log
            new_property_row_def)
    qed
  qed
qed

lemma update_listing_first_call:
  "\<exists>ok rest. call_log (snd (update_listing env pid fd s)) =
     call_log s @ (UpdateProperty pid (update_payload (now env) fd), ok) # rest"
proof -
  let ?c = "UpdateProperty pid (update_payload (now env) fd)"
  let ?s1 = "snd (persist env ?c s)"
  let ?r2 = "recreate_rooms env pid fd ?s1"
  let ?r3 = "recreate_photos env pid fd (snd ?r2)"
  obtain new2 where l2: "call_log (snd ?r2) = call_log ?s1 @ new2"
    using steps_log [OF steps_recreate_rooms [of "\<lambda>c. True" env ?s1 pid fd]] by auto
  obtain new3 where l3: "call_log (snd ?r3) = call_log (snd ?r2) @ new3"
    using steps_log [OF steps_recreate_photos [of "\<lambda>c. True" env "snd ?r2" pid fd]] by auto
  show ?thesis
  proof (cases "fst (persist env ?c s)")
    case (Some e)
    then show ?thesis
      by (simp add: update_listing_def prod.case_eq_if persist_log)
  next
    case None
    show ?thesis
    proof (cases "fst ?r2")
      case (Inl e)
      then show ?thesis
        using None l2 by (simp add: update_listing_def prod.case_eq_if persist_log)
    next
      case (Inr u)
      then show ?thesis
        using None l2 l3 by (simp add: update_listing_def prod.case_eq_if persist_log)
    qed
  qed
qed

text \<open>
  C6. The validation of \<open>handleSubmit\<close> rejects a form exactly when some room has
  a price that is null or \<open>NaN\<close>. A rejected submission makes no call on the
  database and changes neither the tables nor the form: it only shows the "Missing
  price" toast (and clears the submitting flag). A form in which every room has a
  numeric price passes, and the first call of the sequence is made: the insert of the
  property in create mode, its update in edit mode.
\<close>

theorem price_validation:
  "list_ex missing_price (rooms (formData s)) =
     (\<exists>room \<in> set (rooms (formData s)). price_lkr room = None \<or> price_lkr room = Some NaN) \<and>
   (list_ex missing_price (rooms (formData s)) \<longrightarrow>
      handleSubmit env (Some uid) route_id s =
        s\<lparr>toasts := toasts s @ [missing_price_toast], isSubmitting := False\<rparr> \<and>
      call_log (handleSubmit env user route_id s) = call_log s \<and>
      tables (handleSubmit env user route_id s) = tables s \<and>
      formData (handleSubmit env user route_id s) = formData s) \<and>
   (\<not> list_ex missing_price (rooms (formData s)) \<longrightarrow>
      (\<exists>ok rest.
         call_log (handleSubmit env (Some uid) route_id s) =
           call_log s @ (first_call env uid route_id (formData s), ok) # rest))"
proof (intro conjI impI)
  show "list_ex missing_price (rooms (formData s)) =
     (\<exists>room \<in> set (rooms (formData s)). price_lkr room = None \<or> price_lkr room = Some NaN)"
    by (simp add: list_ex_iff missing_price_iff)
next
  assume m: "list_ex missing_price (rooms (formData s))"
  then show "handleSubmit env (Some uid) route_id s =
        s\<lparr>toasts := toasts s @ [missing_price_toast], isSubmitting := False\<rparr>"
    by (simp add: handleSubmit_def missing_price_toast_def)
  from m show "call_log (handleSubmit env user route_id s) = call_log s"
    by (simp add: handleSubmit_def split: option.split)
  from m show "tables (handleSubmit env user route_id s) = tables s"
    by (simp add: handleSubmit_def tables_def split: option.split)
  from m show "formData (handleSubmit env user route_id s) = formData s"
    by (simp add: handleSubmit_def split: option.split)
next
  assume v: "\<not> list_ex missing_price (rooms (formData s))"
  have "\<exists>ok rest. call_log (snd (submit_result env uid route_id s)) =
      call_log s @ (first_call env uid route_id (formData s), ok) # rest"
  proof (cases route_id)
    case None
    then show ?thesis
      using create_listing_first_call [of env uid "formData s" s]
      by (simp add: submit_result_def first_call_def)
  next
    case (Some pid)
    then show ?thesis
      using update_listing_first_call [of env pid "formData s" s]
      by (simp add: submit_result_def first_call_def)
  qed
  then obtain ok rest where l: "call_log (snd (submit_result env uid route_id s)) =
      call_log s @ (first_call env uid route_id (formData s), ok) # rest"
    by blast
  have "call_log (handleSubmit env (Some uid) route_id s) =
      call_log (snd (submit_result env uid route_id s))"
    unfolding handleSubmit_valid [OF v] by (auto split: prod.split sum.split)
  with l show "\<exists>ok rest. call_log (handleSubmit env (Some uid) route_id s) =
      call_log s @ (first_call env uid route_id (formData s), ok) # rest"
    by auto
qed

theorem price_validation_witness:
  "handleSubmit env_ok (Some ''owner'') None (addRoom app0) =
     (addRoom app0)\<lparr>toasts := [missing_price_toast], isSubmitting := False\<rparr> \<and>
   call_log (handleSubmit env_ok (Some ''owner'') None (addRoom app0)) = [] \<and>
   fst (hd (call_log (handleSubmit env_ok (Some ''owner'') None (app0\<lparr>formData := seaside_form\<rparr>)))) =
     InsertProperty (create_payload ''owner'' seaside_form)"
  using price_validation [of "addRoom app0" env_ok "''owner''" None "Some ''owner''"]
    price_validation [of "app0\<lparr>formData := seaside_form\<rparr>" env_ok "''owner''" None "Some ''owner''"]
  by (auto simp: addRoom_def app0_def newRoom_def initialFormData_def seaside_form_def
      missing_price_def isNaN_def first_call_def)


section \<open>The sort order of stored photos\<close>










lemma missing_price_photos [simp]:
  "missing_price (r\<lparr>room_photo_urls := u\<rparr>) = missing_price r"
  by (simp add: missing_price_def)



lemmas upload_defs =
  handleRoomPhotoUpload_def handlePhotoUpload_def uploadImageToCloudinary_def promise_all_def
  falsy_def at_index_def map_at_def filter_not_at_def updateRoom_def removeRoomPhoto_def
  removePhoto_def MAX_ROOM_PHOTOS_def MAX_PHOTOS_def upload_ok_def message_or_def




section \<open>Loading a property and submitting it again\<close>


lemma loaded_form_call_log [simp]: "loaded_form (s\<lparr>call_log := l\<rparr>) p = loaded_form s p"
  by (simp add: loaded_form_def)


lemma rooms_loaded_form [simp]:
  "rooms (loaded_form d p) = map (loaded_room (room_photos d)) (rooms_of (pr_id p) (property_rooms d))"
  by (simp add: loaded_form_def)

lemma photos_loaded_form [simp]:
  "photos (loaded_form d p) =
     map (\<lambda>ph. pp_photo_url (ppr_columns ph)) (photos_of_property (pr_id p) (property_photos d))"
  by (simp add: loaded_form_def)

lemma missing_price_loaded_room [simp]:
  "missing_price (loaded_room ps r) =
     (ri_price_lkr (rr_columns r) = None \<or> ri_price_lkr (rr_columns r) = Some NaN)"
  by (simp add: missing_price_iff loaded_room_def)





lemma rooms_of_filter_other [simp]:
  "rooms_of pid (filter (\<lambda>r. ri_property_id (rr_columns r) \<noteq> pid) rs) = []"
  by (simp add: rooms_of_def filter_empty_conv)

lemma rooms_of_idem [simp]: "rooms_of pid (rooms_of pid rs) = rooms_of pid rs"
  by (simp add: rooms_of_def)

lemma rooms_of_append [simp]: "rooms_of pid (a @ b) = rooms_of pid a @ rooms_of pid b"
  by (simp add: rooms_of_def)







lemma photos_of_property_filter_other [simp]:
  "photos_of_property pid (filter (\<lambda>p. pp_property_id (ppr_columns p) \<noteq> pid) ps) = []"
  by (simp add: photos_of_property_def filter_empty_conv)

lemma photos_of_property_append [simp]:
  "photos_of_property pid (a @ b) = photos_of_property pid a @ photos_of_property pid b"
  by (simp add: photos_of_property_def)

lemma property_id_photosData: "c \<in> set (photosData pid urls) \<Longrightarrow> pp_property_id c = pid"
  by (auto simp: photosData_def)

lemma snd_enumerate_mem: "(k, c) \<in> set (enumerate n cols) \<Longrightarrow> c \<in> set cols"
  by (auto simp: in_set_enumerate_eq)

lemma photos_of_property_rows:
  "\<forall>c \<in> set cols. pp_property_id c = pid \<Longrightarrow>
   photos_of_property pid (new_property_photo_rows n cols) = new_property_photo_rows n cols"
  by (auto simp: photos_of_property_def new_property_photo_rows_def filter_id_conv
      dest: snd_enumerate_mem)

lemma photos_of_property_new [simp]:
  "photos_of_property pid (new_property_photo_rows n (photosData pid urls)) =
     new_property_photo_rows n (photosData pid urls)"
  by (rule photos_of_property_rows) (simp add: property_id_photosData)

lemma urls_photosData [simp]: "map pp_photo_url (photosData pid urls) = urls"
  by (simp add: photosData_def map_snd_enumerate comp_def case_prod_beta
      flip: map_map [where f = "\<lambda>c. c" and g = snd])







lemma photos_of_room_append [simp]:
  "photos_of_room x (a @ b) = photos_of_room x a @ photos_of_room x b"
  by (simp add: photos_of_room_def)

lemma urls_roomPhotosData [simp]: "map rp_photo_url (roomPhotosData rid urls) = urls"
  by (simp add: roomPhotosData_def map_snd_enumerate comp_def case_prod_beta
      flip: map_map [where f = "\<lambda>c. c" and g = snd])









section \<open>The price input\<close>




lemma comma_not_digit [simp]: "\<not> is_digit CHR '',''"
  by (simp add: is_digit_def digits_def)















section \<open>Uploading photos\<close>

lemma promise_all_ok:
  "\<forall>r \<in> set rs. \<not> isl r \<Longrightarrow> promise_all settle_order rs = Inr (map projr rs)"
  by (auto simp: promise_all_def find_None_iff split: option.split)



lemma upload_batch_ok:
  assumes "\<forall>f \<in> set files. \<not> isl (uploadImageToCloudinary env f)"
  shows "promise_all settle_order (map (uploadImageToCloudinary env) files) =
           Inr (map (\<lambda>f. projr (uploadImageToCloudinary env f)) files)"
  using assms by (simp add: promise_all_ok comp_def)

lemma uploaded_url_fun:
  "uploaded_url env = (\<lambda>f. url (projr (uploadImageToCloudinary env f)))"
  by (rule ext) (simp add: uploaded_url_def)



lemma handlePhotoUpload_unfold:
  assumes "allFiles \<noteq> []" and "length (photos (formData s)) < MAX_PHOTOS"
  shows "handlePhotoUpload env settle_order allFiles s =
     (case promise_all settle_order
             (map (uploadImageToCloudinary env)
                (take (MAX_PHOTOS - length (photos (formData s))) allFiles)) of
        Inr results \<Rightarrow>
          s\<lparr>formData := (formData s)\<lparr>photos := photos (formData s) @ map url results\<rparr>,
            toasts := toasts s @
              (if length allFiles > MAX_PHOTOS - length (photos (formData s))
               then [too_many_files_toast (MAX_PHOTOS - length (photos (formData s)))] else []) @
              [\<lparr>title = ''Uploaded'',
                toast_description = string_of_nat (length results) @ '' photo(s) uploaded.'',
                destructive = False\<rparr>],
            isUploading := False\<rparr>
      | Inl err \<Rightarrow>
          s\<lparr>console := console s @ [''Upload error''],
            toasts := toasts s @
              (if length allFiles > MAX_PHOTOS - length (photos (formData s))
               then [too_many_files_toast (MAX_PHOTOS - length (photos (formData s)))] else []) @
              [upload_failed_toast err ''Unable to upload''],
            isUploading := False\<rparr>)"
proof -
  have r: "nat (int MAX_PHOTOS - int (length (photos (formData s)))) =
      MAX_PHOTOS - length (photos (formData s))" by simp
  have c: "(int MAX_PHOTOS - int (length (photos (formData s))) < int (length allFiles)) =
      (MAX_PHOTOS - length (photos (formData s)) < length allFiles)"
    using assms(2) by auto
  show ?thesis
    using assms
    by (simp add: handlePhotoUpload_def Let_def r c upload_failed_toast_def
        too_many_files_toast_def split: sum.split)
qed


text \<open>
  C3 (as amended). For property photos (maximum 20): when the selected files exceed the
  remaining capacity and some capacity remains, a "Too many files" toast reports how many
  more photos can be uploaded, exactly the first that many files are uploaded, and, when
  their uploads succeed, they are appended and the form holds 20 photos; when no capacity
  remains, nothing is accepted and a "Limit reached" toast is shown. For room photos
  (maximum 15): when the room's photos and the selected files together exceed the
  maximum, the whole batch is rejected: nothing is uploaded or added, and one toast
  reports the maximum and the current number of photos.
\<close>

theorem upload_limit:
  "(allFiles \<noteq> [] \<and> length (photos (formData s)) < MAX_PHOTOS \<and>
    MAX_PHOTOS - length (photos (formData s)) < length allFiles \<longrightarrow>
      (\<exists>t. toasts (handlePhotoUpload env settle_order allFiles s) =
         toasts s @ [too_many_files_toast (MAX_PHOTOS - length (photos (formData s))), t]) \<and>
      ((\<forall>f \<in> set (take (MAX_PHOTOS - length (photos (formData s))) allFiles).
          \<not> isl (uploadImageToCloudinary env f)) \<longrightarrow>
         photos (formData (handlePhotoUpload env settle_order allFiles s)) =
           photos (formData s) @
           map (uploaded_url env) (take (MAX_PHOTOS - length (photos (formData s))) allFiles) \<and>
         length (photos (formData (handlePhotoUpload env settle_order allFiles s))) = MAX_PHOTOS)) \<and>
   (allFiles \<noteq> [] \<and> MAX_PHOTOS \<le> length (photos (formData s)) \<longrightarrow>
      handlePhotoUpload env settle_order allFiles s = s\<lparr>toasts := toasts s @ [limit_reached_toast]\<rparr>) \<and>
   (at_index (rooms (formData s)) roomIndex = Some room \<and>
    MAX_ROOM_PHOTOS < length (room_photo_urls room) + length files \<longrightarrow>
      handleRoomPhotoUpload env settle_order roomIndex files s =
        s\<lparr>toasts := toasts s @ [room_limit_toast (length (room_photo_urls room))]\<rparr>)"
proof (intro conjI impI)
  let ?rem = "MAX_PHOTOS - length (photos (formData s))"
  assume a: "allFiles \<noteq> [] \<and> length (photos (formData s)) < MAX_PHOTOS \<and> ?rem < length allFiles"
  then have a': "allFiles \<noteq> []" "length (photos (formData s)) < MAX_PHOTOS" "?rem < length allFiles"
    by simp_all
  note u = handlePhotoUpload_unfold [OF a'(1,2), of env settle_order]
  show "\<exists>t. toasts (handlePhotoUpload env settle_order allFiles s) =
         toasts s @ [too_many_files_toast ?rem, t]"
    unfolding u using a'(3) by (simp split: sum.split)
  {
    assume "\<forall>f \<in> set (take ?rem allFiles). \<not> isl (uploadImageToCloudinary env f)"
    from upload_batch_ok [OF this, of settle_order]
    have p: "photos (formData (handlePhotoUpload env settle_order allFiles s)) =
           photos (formData s) @ map (uploaded_url env) (take ?rem allFiles)"
      unfolding u by (simp add: uploaded_url_fun comp_def)
    then show "photos (formData (handlePhotoUpload env settle_order allFiles s)) =
           photos (formData s) @ map (uploaded_url env) (take ?rem allFiles)" .
    show "length (photos (formData (handlePhotoUpload env settle_order allFiles s))) = MAX_PHOTOS"
      unfolding p using a'(2,3) by simp
  }
next
  assume "allFiles \<noteq> [] \<and> MAX_PHOTOS \<le> length (photos (formData s))"
  then show "handlePhotoUpload env settle_order allFiles s =
      s\<lparr>toasts := toasts s @ [limit_reached_toast]\<rparr>"
    by (simp add: handlePhotoUpload_def Let_def limit_reached_toast_def)
next
  assume "at_index (rooms (formData s)) roomIndex = Some room \<and>
    MAX_ROOM_PHOTOS < length (room_photo_urls room) + length files"
  then show "handleRoomPhotoUpload env settle_order roomIndex files s =
        s\<lparr>toasts := toasts s @ [room_limit_toast (length (room_photo_urls room))]\<rparr>"
    by (simp add: handleRoomPhotoUpload_def Let_def room_limit_toast_def)
qed

lemmas upload_eval =
  upload_defs upload_flaky_def app0_def initialFormData_def addRoom_def newRoom_def
  string_of_nat.simps digit_char_def digits_def


theorem upload_limit_witness:
  "photos (formData (handlePhotoUpload upload_ok [] [''a.png'', ''b.png'', ''c.png''] nineteen_photos)) =
     replicate 19 ''p'' @ [''a.png''] \<and>
   handleRoomPhotoUpload upload_ok [] 0 [''a.png'', ''b.png''] room_with_14_photos =
     room_with_14_photos\<lparr>toasts := [room_limit_toast 14]\<rparr>"
proof -
  have h1: "[''a.png'', ''b.png'', ''c.png''] \<noteq> [] \<and>
      length (photos (formData nineteen_photos)) < MAX_PHOTOS \<and>
      MAX_PHOTOS - length (photos (formData nineteen_photos)) < length [''a.png'', ''b.png'', ''c.png'']"
    by (simp add: nineteen_photos_def upload_eval)
  have rem: "MAX_PHOTOS - length (photos (formData nineteen_photos)) = 1"
    by (simp add: nineteen_photos_def upload_eval)
  have h2: "\<forall>f \<in> set (take (MAX_PHOTOS - length (photos (formData nineteen_photos)))
        [''a.png'', ''b.png'', ''c.png'']). \<not> isl (uploadImageToCloudinary upload_ok f)"
    unfolding rem by (simp add: upload_eval)
  have h3: "at_index (rooms (formData room_with_14_photos)) 0 =
        Some (newRoom\<lparr>room_photo_urls := replicate 14 ''p''\<rparr>) \<and>
      MAX_ROOM_PHOTOS < length (room_photo_urls (newRoom\<lparr>room_photo_urls := replicate 14 ''p''\<rparr>)) +
        length [''a.png'', ''b.png'']"
    by (simp add: room_with_14_photos_def upload_eval)
  note t = upload_limit [of "[''a.png'', ''b.png'', ''c.png'']" nineteen_photos upload_ok "[]"]
  note t' = upload_limit [where s = room_with_14_photos and roomIndex = 0
      and room = "newRoom\<lparr>room_photo_urls := replicate 14 ''p''\<rparr>"
      and files = "[''a.png'', ''b.png'']" and env = upload_ok and settle_order = "[]"
      and allFiles = "[]"]
  from t [THEN conjunct1, THEN mp, OF h1, THEN conjunct2, THEN mp, OF h2, THEN conjunct1]
  have a: "photos (formData (handlePhotoUpload upload_ok [] [''a.png'', ''b.png'', ''c.png''] nineteen_photos)) =
     replicate 19 ''p'' @ [''a.png'']"
    unfolding rem by (simp add: nineteen_photos_def uploaded_url_def upload_eval)
  from t' [THEN conjunct2, THEN conjunct2, THEN mp, OF h3]
  have b: "handleRoomPhotoUpload upload_ok [] 0 [''a.png'', ''b.png''] room_with_14_photos =
     room_with_14_photos\<lparr>toasts := [room_limit_toast 14]\<rparr>"
    by (simp add: room_with_14_photos_def app0_def)
  from a b show ?thesis by simp
qed

text \<open>
  C3 as stated fails for room photos: a room holds 14 photos and two files are selected;
  the claim accepts the first file, the handler accepts none, and its message reports
  the maximum and the current count, not that one more photo could be accepted.
\<close>

theorem room_batch_rejected_whole:
  "length (room_photo_urls (hd (rooms (formData room_with_14_photos)))) = 14 \<and>
   room_photo_urls (hd (rooms (formData
      (handleRoomPhotoUpload upload_ok [] 0 [''a.png'', ''b.png''] room_with_14_photos)))) =
     replicate 14 ''p'' \<and>
   toasts (handleRoomPhotoUpload upload_ok [] 0 [''a.png'', ''b.png''] room_with_14_photos) =
     [\<lparr>title = ''Upload limit exceeded'',
       toast_description = ''You can only upload 15 photos per room. Currently have 14 photos.'',
       destructive = False\<rparr>]"
  by (simp add: room_with_14_photos_def upload_eval)


end
